theory Spec2Isabelle
  imports Complex_Main "HOL-Library.Multiset"
begin

text \<open>
  A shallow embedding of \<open>app.py\<close>: a genetic algorithm that orders stations along a line.
  Lists that the program creates and mutates are objects in a store, so that copying and
  aliasing are visible; the random generator is an explicit argument that supplies the value
  each call to \<open>random\<close> returns; exceptions are values.
\<close>

section \<open>Errors and indexing\<close>

text \<open>
  The exceptions the program can raise: \<open>IndexError\<close> from a list index out of range,
  \<open>ValueError\<close> from \<open>random.sample\<close>, \<open>random.randint\<close>, \<open>min\<close> and \<open>argmin\<close> on an
  empty range, \<open>NameError\<close> from reading a variable that was never bound.
\<close>

datatype error = IndexError | ValueError | NameError

definition bind_e :: "error + 'a \<Rightarrow> ('a \<Rightarrow> error + 'b) \<Rightarrow> error + 'b" where
  "bind_e m f = (case m of Inl e \<Rightarrow> Inl e | Inr x \<Rightarrow> f x)"

text \<open>\<open>xs[i]\<close> for a non-negative index \<open>i\<close>.\<close>

definition indice :: "'a list \<Rightarrow> nat \<Rightarrow> error + 'a" where
  "indice xs i = (if i < length xs then Inr (xs ! i) else Inl IndexError)"

text \<open>A \<open>for\<close> loop over a list that threads an accumulator and stops at the first raise.\<close>

fun for_each :: "('s \<Rightarrow> 'a \<Rightarrow> error + 's) \<Rightarrow> 's \<Rightarrow> 'a list \<Rightarrow> error + 's" where
  "for_each f s [] = Inr s"
| "for_each f s (x # xs) = (case f s x of Inl e \<Rightarrow> Inl e | Inr s' \<Rightarrow> for_each f s' xs)"

section \<open>Objective evaluator\<close>

text \<open>
  Station sizes and preference weights are the integers \<open>leer_datos\<close> reads. The halves
  \<open>Lxi / 2\<close> are floats in the program; a half-integer of moderate magnitude and the sums and
  products formed here are exact in binary floating point, so the arithmetic is modelled
  in \<open>rat\<close>. Positions and station indices are non-negative (they come from \<open>range\<close>).
\<close>

text \<open>\<open>tamanos[orden[k]]\<close>\<close>

definition tamano_en :: "nat list \<Rightarrow> int list \<Rightarrow> nat \<Rightarrow> error + int" where
  "tamano_en orden tamanos k = bind_e (indice orden k) (indice tamanos)"

definition distancia :: "nat \<Rightarrow> nat \<Rightarrow> nat list \<Rightarrow> int list \<Rightarrow> error + rat" where
  "distancia i j orden tamanos =
     bind_e (tamano_en orden tamanos i) (\<lambda>Lxi.
     bind_e (tamano_en orden tamanos j) (\<lambda>Lxj.
     bind_e (for_each (\<lambda>s k. bind_e (tamano_en orden tamanos k) (\<lambda>v. Inr (s + v)))
               0 [i + 1 ..< j]) (\<lambda>suma_intermedia.
     Inr (of_int Lxi / 2 + of_int suma_intermedia + of_int Lxj / 2))))"

definition evaluar_solucion :: "nat list \<Rightarrow> int list list \<Rightarrow> int list \<Rightarrow> error + rat" where
  "evaluar_solucion orden preferencias tamanos =
     (let n = length orden in
      for_each (\<lambda>esfuerzo i.
        for_each (\<lambda>esfuerzo j.
          bind_e (distancia i j orden tamanos) (\<lambda>d.
          bind_e (indice preferencias i) (\<lambda>fila.
          bind_e (indice fila j) (\<lambda>p.
          Inr (esfuerzo + d * of_int p)))))
          esfuerzo [i + 1 ..< n])
        0 [0 ..< n - 1])"

text \<open>The distance of the specification, as a closed formula over positions \<open>i < j\<close>.\<close>

definition distancia_spec :: "nat list \<Rightarrow> int list \<Rightarrow> nat \<Rightarrow> nat \<Rightarrow> rat" where
  "distancia_spec orden tamanos i j =
     of_int (tamanos ! (orden ! i)) / 2
     + (\<Sum>k = i + 1 ..< j. of_int (tamanos ! (orden ! k)))
     + of_int (tamanos ! (orden ! j)) / 2"

text \<open>\<open>preferencias[i][j]\<close>\<close>

definition entrada :: "int list list \<Rightarrow> nat \<Rightarrow> nat \<Rightarrow> error + int" where
  "entrada preferencias i j = bind_e (indice preferencias i) (\<lambda>fila. indice fila j)"

section \<open>The store and the random generator\<close>

text \<open>
  A candidate is a Python list object. The store holds the contents of every list object
  created so far; a reference is the position of the object in the store. Creating a list
  appends it, so a new reference is never one in use.
\<close>

type_synonym ref = nat
type_synonym heap = "nat list list"

definition nuevo :: "heap \<Rightarrow> nat list \<Rightarrow> ref \<times> heap" where
  "nuevo h xs = (length h, h @ [xs])"

text \<open>
  \<open>random.sample(range(n), k)\<close> raises \<open>ValueError\<close> unless \<open>0 \<le> k \<le> n\<close>, and
  \<open>random.randint(a, b)\<close> raises it when the range is empty; otherwise they return the value
  drawn, here the last argument. What the library promises about that value is
  \<open>muestra_valida\<close> and \<open>entero_valido\<close>.
\<close>

definition random_sample :: "nat \<Rightarrow> int \<Rightarrow> nat list \<Rightarrow> error + nat list" where
  "random_sample n k muestra = (if 0 \<le> k \<and> k \<le> int n then Inr muestra else Inl ValueError)"

definition random_randint :: "int \<Rightarrow> int \<Rightarrow> nat \<Rightarrow> error + nat" where
  "random_randint a b r = (if a \<le> b then Inr r else Inl ValueError)"

definition muestra_valida :: "nat \<Rightarrow> int \<Rightarrow> nat list \<Rightarrow> bool" where
  "muestra_valida n k muestra \<longleftrightarrow>
     (0 \<le> k \<and> k \<le> int n \<longrightarrow>
        int (length muestra) = k \<and> distinct muestra \<and> (\<forall>x \<in> set muestra. x < n))"

definition entero_valido :: "int \<Rightarrow> int \<Rightarrow> nat \<Rightarrow> bool" where
  "entero_valido a b r \<longleftrightarrow> (a \<le> b \<longrightarrow> a \<le> int r \<and> int r \<le> b)"

section \<open>Population initializer\<close>

text \<open>
  \<open>int(x)\<close> of a float truncates toward zero; the product \<open>num_puestos * 0.5\<close> is exact.
\<close>

definition truncar :: "rat \<Rightarrow> int" where
  "truncar x = (if 0 \<le> x then \<lfloor>x\<rfloor> else \<lceil>x\<rceil>)"

text \<open>\<open>[list(range(num_puestos)) for _ in range(m)]\<close>: one new list object per round.\<close>

fun crear_identidades :: "nat \<Rightarrow> int \<Rightarrow> heap \<Rightarrow> ref list \<times> heap" where
  "crear_identidades 0 num_puestos h = ([], h)"
| "crear_identidades (Suc m) num_puestos h =
     (let (r, h) = nuevo h [0 ..< nat num_puestos];
          (rs, h) = crear_identidades m num_puestos h
      in (r # rs, h))"

definition inicializar_poblacion :: "heap \<Rightarrow> int \<Rightarrow> ref list \<times> heap" where
  "inicializar_poblacion h num_puestos =
     (let porcentaje_tamano_poblacion = 1 / 2;
          tamano_poblacion = truncar (of_int num_puestos * porcentaje_tamano_poblacion)
      in crear_identidades (nat tamano_poblacion) num_puestos h)"

section \<open>Tournament selection\<close>

text \<open>
  \<open>min(xs, key=f)\<close>: \<open>ValueError\<close> on an empty sequence; otherwise the first element whose
  key is smallest (a later element replaces the current one only when its key is strictly
  smaller).
\<close>

definition min_key :: "(nat \<Rightarrow> error + rat) \<Rightarrow> nat list \<Rightarrow> error + nat" where
  "min_key f xs =
     (case xs of
        [] \<Rightarrow> Inl ValueError
      | x # ys \<Rightarrow>
          bind_e (f x) (\<lambda>fx.
          bind_e (for_each (\<lambda>(m, fm) y. bind_e (f y) (\<lambda>fy.
                     Inr (if fy < fm then (y, fy) else (m, fm)))) (x, fx) ys) (\<lambda>(m, fm).
          Inr m)))"

text \<open>The slice \<open>poblacion[ganador][:]\<close> creates a new list object with the same contents.\<close>

definition seleccion_torneo ::
  "heap \<Rightarrow> ref list \<Rightarrow> rat list \<Rightarrow> int \<Rightarrow> nat list \<Rightarrow> error + ref \<times> heap" where
  "seleccion_torneo h poblacion fitness tamano_torneo muestra =
     bind_e (random_sample (length poblacion) tamano_torneo muestra) (\<lambda>torneo.
     bind_e (min_key (indice fitness) torneo) (\<lambda>ganador.
     bind_e (indice poblacion ganador) (\<lambda>r.
     Inr (nuevo h (h ! r)))))"

section \<open>Crossover and mutation\<close>

definition cruce :: "heap \<Rightarrow> ref \<Rightarrow> ref \<Rightarrow> nat \<Rightarrow> error + ref \<times> ref \<times> heap" where
  "cruce h padre1 padre2 r =
     (let p1 = h ! padre1; p2 = h ! padre2 in
      bind_e (random_randint 1 (int (length p1) - 1) r) (\<lambda>punto_cruce.
        let (hijo1, h) = nuevo h (take punto_cruce p1
                            @ filter (\<lambda>gen. gen \<notin> set (take punto_cruce p1)) p2);
            (hijo2, h) = nuevo h (take punto_cruce p2
                            @ filter (\<lambda>gen. gen \<notin> set (take punto_cruce p2)) p1)
        in Inr (hijo1, hijo2, h)))"

text \<open>
  The swap is done in the object \<open>individuo\<close> refers to, and the same reference is returned.
  Both right-hand sides of the tuple assignment are read before either position is written.
\<close>

definition mutacion :: "heap \<Rightarrow> ref \<Rightarrow> nat \<times> nat \<Rightarrow> error + ref \<times> heap" where
  "mutacion h individuo par =
     (let xs = h ! individuo in
      bind_e (random_sample (length xs) 2 [fst par, snd par]) (\<lambda>muestra.
        let indice_1 = muestra ! 0; indice_2 = muestra ! 1
        in Inr (individuo,
                h[individuo := xs[indice_1 := xs ! indice_2, indice_2 := xs ! indice_1]])))"

section \<open>Evolution loop\<close>

definition NUM_GENERACIONES :: nat where
  "NUM_GENERACIONES = 100"

text \<open>
  What the random generator returns during one round of the reproduction loop: the two
  tournament samples, the outcome of \<open>random.random() < probabilidad_cruce\<close>, the crossover
  point, and for each child the outcome of \<open>random.random() < probabilidad_mutacion\<close> and
  the two positions to swap. A value is read only where the program makes the call.
\<close>

record sorteo =
  torneo1 :: "nat list"
  torneo2 :: "nat list"
  cruza :: bool
  punto :: nat
  muta1 :: bool
  indices1 :: "nat \<times> nat"
  muta2 :: bool
  indices2 :: "nat \<times> nat"

text \<open>
  The draws of a round honour the library's promises, for a population of \<open>n\<close> candidates
  of length \<open>l\<close>; \<open>mutaciones_validas\<close> is the part about the positions to swap.
\<close>

definition mutaciones_validas :: "nat \<Rightarrow> sorteo \<Rightarrow> bool" where
  "mutaciones_validas l s \<longleftrightarrow>
     muestra_valida l 2 [fst (indices1 s), snd (indices1 s)]
     \<and> muestra_valida l 2 [fst (indices2 s), snd (indices2 s)]"

definition sorteo_valido :: "nat \<Rightarrow> nat \<Rightarrow> sorteo \<Rightarrow> bool" where
  "sorteo_valido n l s \<longleftrightarrow>
     muestra_valida n 3 (torneo1 s) \<and> muestra_valida n 3 (torneo2 s)
     \<and> entero_valido 1 (int l - 1) (punto s)
     \<and> mutaciones_validas l s"

text \<open>The body of the \<open>while\<close> loop: two parents, two children, each perhaps mutated.\<close>

definition reproducir ::
  "heap \<Rightarrow> ref list \<Rightarrow> rat list \<Rightarrow> sorteo \<Rightarrow> error + ref \<times> ref \<times> heap" where
  "reproducir h poblacion fitness s =
     bind_e (seleccion_torneo h poblacion fitness 3 (torneo1 s)) (\<lambda>(padre1, h).
     bind_e (seleccion_torneo h poblacion fitness 3 (torneo2 s)) (\<lambda>(padre2, h).
     bind_e (if cruza s then cruce h padre1 padre2 (punto s)
             else (let (hijo1, h) = nuevo h (h ! padre1);
                       (hijo2, h) = nuevo h (h ! padre2)
                   in Inr (hijo1, hijo2, h))) (\<lambda>(hijo1, hijo2, h).
     bind_e (if muta1 s then mutacion h hijo1 (indices1 s) else Inr (hijo1, h)) (\<lambda>(m1, h).
     bind_e (if muta2 s then mutacion h hijo2 (indices2 s) else Inr (hijo2, h)) (\<lambda>(m2, h).
     Inr (m1, m2, h))))))"

text \<open>
  \<open>while len(nueva_poblacion) < len(poblacion)\<close>; \<open>sorteos\<close> lists the draws of the rounds
  still to come.
\<close>

function bucle_reproduccion ::
  "ref list \<Rightarrow> rat list \<Rightarrow> (nat \<Rightarrow> sorteo) \<Rightarrow> heap \<Rightarrow> ref list \<Rightarrow> error + ref list \<times> heap" where
  "bucle_reproduccion poblacion fitness sorteos h nueva_poblacion =
     (if length nueva_poblacion < length poblacion then
        (case reproducir h poblacion fitness (sorteos 0) of
           Inl e \<Rightarrow> Inl e
         | Inr (m1, m2, h') \<Rightarrow>
             bucle_reproduccion poblacion fitness (\<lambda>i. sorteos (Suc i)) h'
               (nueva_poblacion @ [m1, m2]))
      else Inr (nueva_poblacion, h))"
  by pat_completeness auto
termination
  by (relation "measure (\<lambda>(poblacion, fitness, sorteos, h, nueva_poblacion).
                    length poblacion - length nueva_poblacion)") auto

text \<open>A list comprehension whose element expression may raise.\<close>

fun comprension :: "('a \<Rightarrow> error + 'b) \<Rightarrow> 'a list \<Rightarrow> error + 'b list" where
  "comprension f [] = Inr []"
| "comprension f (x # xs) =
     bind_e (f x) (\<lambda>y. bind_e (comprension f xs) (\<lambda>ys. Inr (y # ys)))"

text \<open>One pass of the \<open>for generacion\<close> loop: the new population, and the fitness it leaves bound.\<close>

definition generacion ::
  "int list list \<Rightarrow> int list \<Rightarrow> (nat \<Rightarrow> sorteo) \<Rightarrow> heap \<Rightarrow> ref list
     \<Rightarrow> error + ref list \<times> rat list \<times> heap" where
  "generacion preferencias tamanos sorteos h poblacion =
     bind_e (comprension (\<lambda>individuo. evaluar_solucion (h ! individuo) preferencias tamanos)
               poblacion) (\<lambda>fitness.
     bind_e (bucle_reproduccion poblacion fitness sorteos h []) (\<lambda>(nueva_poblacion, h).
     Inr (nueva_poblacion, fitness, h)))"

text \<open>
  The state after \<open>g\<close> passes of the loop: the population, the variable \<open>fitness\<close> (unbound
  before the first pass) and the store. Pass \<open>g\<close> uses the draws \<open>sorteos g\<close>.
\<close>

type_synonym estado = "ref list \<times> rat list option \<times> heap"

fun evolucionar ::
  "nat \<Rightarrow> int list list \<Rightarrow> int list \<Rightarrow> (nat \<Rightarrow> nat \<Rightarrow> sorteo) \<Rightarrow> estado \<Rightarrow> error + estado" where
  "evolucionar 0 preferencias tamanos sorteos e = Inr e"
| "evolucionar (Suc g) preferencias tamanos sorteos e =
     bind_e (evolucionar g preferencias tamanos sorteos e) (\<lambda>(poblacion, fitness, h).
     bind_e (generacion preferencias tamanos (sorteos g) h poblacion)
       (\<lambda>(nueva_poblacion, fitness, h).
     Inr (nueva_poblacion, Some fitness, h)))"

text \<open>
  \<open>numpy.argmin\<close>: \<open>ValueError\<close> on an empty sequence, otherwise the first position that
  holds the minimum.
\<close>

definition argmin :: "rat list \<Rightarrow> error + nat" where
  "argmin xs =
     (if xs = [] then Inl ValueError
      else Inr (hd (filter (\<lambda>i. xs ! i = Min (set xs)) [0 ..< length xs])))"

text \<open>
  The run from the data \<open>leer_datos\<close> returns to the two values printed, with the number of
  generations as a parameter; \<open>main\<close> is the run with the program's constant.
\<close>

definition ejecutar ::
  "nat \<Rightarrow> int \<Rightarrow> int list \<Rightarrow> int list list \<Rightarrow> (nat \<Rightarrow> nat \<Rightarrow> sorteo)
     \<Rightarrow> error + nat list \<times> rat" where
  "ejecutar num_generaciones num_puestos tamanos preferencias sorteos =
     (let (poblacion, h) = inicializar_poblacion [] num_puestos in
      bind_e (evolucionar num_generaciones preferencias tamanos sorteos (poblacion, None, h))
        (\<lambda>(poblacion, fitness, h).
      bind_e (case fitness of None \<Rightarrow> Inl NameError | Some f \<Rightarrow> Inr f) (\<lambda>fitness.
      bind_e (argmin fitness) (\<lambda>i.
      bind_e (indice poblacion i) (\<lambda>mejor_orden.
      bind_e (evaluar_solucion (h ! mejor_orden) preferencias tamanos) (\<lambda>mejor_esfuerzo.
      Inr (h ! mejor_orden, mejor_esfuerzo)))))))"

definition main ::
  "int \<Rightarrow> int list \<Rightarrow> int list list \<Rightarrow> (nat \<Rightarrow> nat \<Rightarrow> sorteo) \<Rightarrow> error + nat list \<times> rat" where
  "main num_puestos tamanos preferencias sorteos =
     ejecutar NUM_GENERACIONES num_puestos tamanos preferencias sorteos"

text \<open>A candidate is a permutation of the station indices \<open>0, ..., n - 1\<close>.\<close>

definition es_permutacion :: "nat \<Rightarrow> nat list \<Rightarrow> bool" where
  "es_permutacion n xs \<longleftrightarrow> distinct xs \<and> set xs = set [0 ..< n]"

text \<open>Every candidate of a population is an object of the store and a permutation.\<close>

definition candidatos_validos :: "nat \<Rightarrow> heap \<Rightarrow> ref list \<Rightarrow> bool" where
  "candidatos_validos n h poblacion \<longleftrightarrow>
     (\<forall>r \<in> set poblacion. r < length h \<and> es_permutacion n (h ! r))"

text \<open>
  The contents of the population that \<open>main\<close> indexes after the last generation.
\<close>

definition poblacion_final ::
  "int \<Rightarrow> int list \<Rightarrow> int list list \<Rightarrow> (nat \<Rightarrow> nat \<Rightarrow> sorteo) \<Rightarrow> error + nat list list" where
  "poblacion_final num_puestos tamanos preferencias sorteos =
     (let (poblacion, h) = inicializar_poblacion [] num_puestos in
      bind_e (evolucionar NUM_GENERACIONES preferencias tamanos sorteos (poblacion, None, h))
        (\<lambda>(poblacion, fitness, h). Inr (map ((!) h) poblacion)))"

subsection \<open>A run of six stations\<close>

text \<open>
  Six stations, the first three units long and the others one; the only non-zero weight is
  \<open>preferencias[0][1]\<close>. In every round the tournaments sample the indices 0, 1, 2 and
  there is no crossover; the only mutation of the run swaps positions 0 and 2 of the second
  child of the first round of the last generation.
\<close>

definition tamanos_caso :: "int list" where
  "tamanos_caso = [3, 1, 1, 1, 1, 1]"

definition preferencias_caso :: "int list list" where
  "preferencias_caso =
     [[0, 1, 0, 0, 0, 0], [0, 0, 0, 0, 0, 0], [0, 0, 0, 0, 0, 0],
      [0, 0, 0, 0, 0, 0], [0, 0, 0, 0, 0, 0], [0, 0, 0, 0, 0, 0]]"

definition sorteo_quieto :: sorteo where
  "sorteo_quieto =
     \<lparr>torneo1 = [0, 1, 2], torneo2 = [0, 1, 2], cruza = False, punto = 1,
      muta1 = False, indices1 = (0, 1), muta2 = False, indices2 = (0, 1)\<rparr>"

definition sorteo_mutante :: sorteo where
  "sorteo_mutante = sorteo_quieto\<lparr>muta2 := True, indices2 := (0, 2)\<rparr>"

text \<open>Draws of a round with a crossover at point 2 and a mutation of both children.\<close>

definition sorteo_activo :: sorteo where
  "sorteo_activo =
     \<lparr>torneo1 = [0, 1, 2], torneo2 = [2, 1, 0], cruza = True, punto = 2,
      muta1 = True, indices1 = (1, 4), muta2 = True, indices2 = (0, 2)\<rparr>"

definition sorteos_caso :: "nat \<Rightarrow> nat \<Rightarrow> sorteo" where
  "sorteos_caso g i = (if g = 99 \<and> i = 0 then sorteo_mutante else sorteo_quieto)"

text \<open>The identity ordering, the mutated child, and the state before the first generation.\<close>

definition identidad_caso :: "nat list" where
  "identidad_caso = [0, 1, 2, 3, 4, 5]"

definition mutado_caso :: "nat list" where
  "mutado_caso = [2, 1, 0, 3, 4, 5]"

definition estado_inicial_caso :: estado where
  "estado_inicial_caso = ([0, 1, 2], None, [identidad_caso, identidad_caso, identidad_caso])"

text \<open>Three or four candidates, each the identity ordering.\<close>

definition poblacion_quieta :: "heap \<Rightarrow> ref list \<Rightarrow> bool" where
  "poblacion_quieta h poblacion \<longleftrightarrow>
     (length poblacion = 3 \<or> length poblacion = 4)
     \<and> (\<forall>r \<in> set poblacion. r < length h \<and> h ! r = identidad_caso)"

section \<open>Properties of the evaluator\<close>

lemma bind_e_Inr [simp]: "bind_e (Inr x) f = f x"
  by (simp add: bind_e_def)

lemma bind_e_Inl [simp]: "bind_e (Inl e) f = Inl e"
  by (simp add: bind_e_def)

lemma bind_e_assoc: "bind_e (bind_e m f) g = bind_e m (\<lambda>x. bind_e (f x) g)"
  by (cases m) simp_all


lemma for_each_sum:
  fixes g :: "'a \<Rightarrow> 'b::comm_monoid_add"
  assumes "\<And>s x. x \<in> set xs \<Longrightarrow> f s x = Inr (s + g x)"
  shows "for_each f s xs = Inr (s + sum_list (map g xs))"
  using assms by (induction xs arbitrary: s) (simp_all add: add.assoc)

lemma for_each_upt_sum:
  fixes g :: "nat \<Rightarrow> 'b::comm_monoid_add"
  assumes "\<And>s k. a \<le> k \<Longrightarrow> k < b \<Longrightarrow> f s k = Inr (s + g k)"
  shows "for_each f s [a ..< b] = Inr (s + (\<Sum>k = a ..< b. g k))"
proof -
  have "for_each f s [a ..< b] = Inr (s + sum_list (map g [a ..< b]))"
    by (rule for_each_sum) (simp add: assms)
  then show ?thesis
    by (simp add: interv_sum_list_conv_sum_set_nat)
qed

lemma tamano_en_ok:
  "k < length orden \<Longrightarrow> orden ! k < length tamanos \<Longrightarrow>
   tamano_en orden tamanos k = Inr (tamanos ! (orden ! k))"
  by (simp add: tamano_en_def indice_def)

lemma distancia_ok:
  assumes "i < j" "j < length orden"
    and "\<And>k. i \<le> k \<Longrightarrow> k \<le> j \<Longrightarrow> orden ! k < length tamanos"
  shows "distancia i j orden tamanos = Inr (distancia_spec orden tamanos i j)"
proof -
  have "for_each (\<lambda>s k. bind_e (tamano_en orden tamanos k) (\<lambda>v. Inr (s + v))) 0 [Suc i ..< j]
        = Inr (0 + (\<Sum>k = Suc i ..< j. tamanos ! (orden ! k)))"
    using assms by (intro for_each_upt_sum) (simp add: tamano_en_ok)
  then have mid: "for_each (\<lambda>s k. bind_e (tamano_en orden tamanos k) (\<lambda>v. Inr (s + v))) 0 [Suc i ..< j]
        = Inr (\<Sum>k = Suc i ..< j. tamanos ! (orden ! k))"
    by simp
  show ?thesis
    using assms by (simp add: distancia_def distancia_spec_def mid tamano_en_ok)
qed

lemma evaluar_solucion_entrada:
  "evaluar_solucion orden preferencias tamanos =
     for_each (\<lambda>esfuerzo i.
        for_each (\<lambda>esfuerzo j.
          bind_e (distancia i j orden tamanos) (\<lambda>d.
          bind_e (entrada preferencias i j) (\<lambda>p.
          Inr (esfuerzo + d * of_int p))))
          esfuerzo [i + 1 ..< length orden])
        0 [0 ..< length orden - 1]"
  by (simp add: evaluar_solucion_def entrada_def bind_e_assoc Let_def)

lemma evaluar_solucion_suma:
  assumes tam: "\<And>k. k < length orden \<Longrightarrow> orden ! k < length tamanos"
    and pref: "\<And>i j. i < j \<Longrightarrow> j < length orden \<Longrightarrow> entrada preferencias i j = Inr (w i j)"
  shows "evaluar_solucion orden preferencias tamanos =
     Inr (\<Sum>i = 0 ..< length orden - 1. \<Sum>j = i + 1 ..< length orden.
            distancia_spec orden tamanos i j * of_int (w i j))"
proof -
  let ?n = "length orden"
  let ?sumando = "\<lambda>i j. distancia_spec orden tamanos i j * of_int (w i j)"
  have inner: "for_each (\<lambda>esfuerzo j.
          bind_e (distancia i j orden tamanos) (\<lambda>d.
          bind_e (entrada preferencias i j) (\<lambda>p.
          Inr (esfuerzo + d * of_int p)))) s [i + 1 ..< ?n]
        = Inr (s + (\<Sum>j = i + 1 ..< ?n. ?sumando i j))" for i s
  proof (intro for_each_upt_sum)
    fix s' j assume "i + 1 \<le> j" "j < ?n"
    then have ij: "i < j" by simp
    have "distancia i j orden tamanos = Inr (distancia_spec orden tamanos i j)"
      using ij \<open>j < ?n\<close> by (intro distancia_ok) (simp_all add: tam)
    then show "bind_e (distancia i j orden tamanos) (\<lambda>d.
          bind_e (entrada preferencias i j) (\<lambda>p. Inr (s' + d * of_int p)))
        = Inr (s' + ?sumando i j)"
      using ij \<open>j < ?n\<close> by (simp add: pref)
  qed
  have "for_each (\<lambda>esfuerzo i.
        for_each (\<lambda>esfuerzo j.
          bind_e (distancia i j orden tamanos) (\<lambda>d.
          bind_e (entrada preferencias i j) (\<lambda>p.
          Inr (esfuerzo + d * of_int p))))
          esfuerzo [i + 1 ..< ?n]) 0 [0 ..< ?n - 1]
        = Inr (0 + (\<Sum>i = 0 ..< ?n - 1. \<Sum>j = i + 1 ..< ?n. ?sumando i j))"
    by (rule for_each_upt_sum) (rule inner)
  then show ?thesis
    by (simp add: evaluar_solucion_entrada)
qed








section \<open>Properties of the initializer\<close>

lemma crear_identidades_eq:
  "crear_identidades m n h = ([length h ..< length h + m], h @ replicate m [0 ..< nat n])"
proof (induction m arbitrary: h)
  case 0
  show ?case by simp
next
  case (Suc m)
  show ?case
    by (simp add: nuevo_def Suc upt_conv_Cons replicate_app_Cons_same)
qed

lemma truncar_mitad: "nat (truncar (of_int n * (1 / 2))) = nat \<lfloor>(of_int n :: rat) * (1 / 2)\<rfloor>"
proof (cases "0 \<le> n")
  case True
  then show ?thesis by (simp add: truncar_def)
next
  case False
  then have "(of_int n :: rat) / 2 < 0" by simp
  then have "\<lfloor>(of_int n :: rat) / 2\<rfloor> < 0" "\<lceil>(of_int n :: rat) / 2\<rceil> \<le> 0"
    by (simp_all add: floor_less_iff ceiling_le_iff)
  with False show ?thesis by (simp add: truncar_def)
qed

lemma inicializar_poblacion_eq:
  "inicializar_poblacion h n =
     ([length h ..< length h + nat \<lfloor>(of_int n :: rat) * (1 / 2)\<rfloor>],
      h @ replicate (nat \<lfloor>(of_int n :: rat) * (1 / 2)\<rfloor>) [0 ..< nat n])"
  unfolding inicializar_poblacion_def Let_def crear_identidades_eq truncar_mitad ..

lemma map_nth_append_replicate:
  "map ((!) (h @ replicate m x)) [length h ..< length h + m] = replicate m x"
  by (rule nth_equalityI) (simp_all add: nth_append)

text \<open>
  Claim C6. For every \<open>N\<close> (so for every \<open>N \<ge> 2\<close>) the initializer returns exactly
  \<open>floor(N \<times> 0.5)\<close> candidates, each a list object of its own holding the identity
  ordering \<open>[0, ..., N - 1]\<close>. It takes no draw of the random generator.
\<close>

theorem inicializar_poblacion_identidades:
  "length (fst (inicializar_poblacion h n)) = nat \<lfloor>(of_int n :: rat) * (1 / 2)\<rfloor>
   \<and> map ((!) (snd (inicializar_poblacion h n))) (fst (inicializar_poblacion h n))
       = replicate (nat \<lfloor>(of_int n :: rat) * (1 / 2)\<rfloor>) [0 ..< nat n]
   \<and> distinct (fst (inicializar_poblacion h n))"
  by (simp add: inicializar_poblacion_eq map_nth_append_replicate)

section \<open>Properties of crossover and mutation\<close>

subsection \<open>Crossover\<close>

lemma hijo_distinct:
  "distinct p1 \<Longrightarrow> distinct p2 \<Longrightarrow>
   distinct (take p p1 @ filter (\<lambda>gen. gen \<notin> set (take p p1)) p2)"
  by auto

lemma hijo_set:
  assumes "set p1 = set p2"
  shows "set (take p p1 @ filter (\<lambda>gen. gen \<notin> set (take p p1)) p2) = set p1"
proof -
  have "set (take p p1) \<subseteq> set p2"
    using assms set_take_subset by fastforce
  then show ?thesis
    using assms by auto
qed

lemma cruce_eq:
  "2 \<le> length (h ! padre1) \<Longrightarrow>
   cruce h padre1 padre2 p =
     Inr (length h, Suc (length h),
          h @ [take p (h ! padre1) @ filter (\<lambda>gen. gen \<notin> set (take p (h ! padre1))) (h ! padre2),
               take p (h ! padre2) @ filter (\<lambda>gen. gen \<notin> set (take p (h ! padre2))) (h ! padre1)])"
  by (simp add: cruce_def Let_def random_randint_def nuevo_def)

lemma cruce_error:
  "length (h ! padre1) < 2 \<Longrightarrow> cruce h padre1 padre2 p = Inl ValueError"
  by (simp add: cruce_def Let_def random_randint_def)

text \<open>
  Claim C4. For two parents that are permutations of the same elements, of length
  \<open>L \<ge> 2\<close>, and a crossover point \<open>p\<close> as \<open>random.randint(1, L - 1)\<close> returns it, so
  \<open>1 \<le> p < L\<close>: the crossover succeeds, the first child is the first \<open>p\<close> genes of the
  first parent followed by the genes of the second parent that are not among them, in the
  second parent's order, the second child is formed the same way with the parents swapped,
  and both children are permutations of the parents' elements. In particular the parents
  \<open>[0,1,2,3]\<close> and \<open>[3,2,1,0]\<close> with \<open>p = 2\<close> give the first child \<open>[0,1,3,2]\<close>.
\<close>

theorem cruce_contrato:
  "(distinct (h ! padre1) \<and> distinct (h ! padre2)
      \<and> set (h ! padre1) = set (h ! padre2)
      \<and> 2 \<le> length (h ! padre1)
      \<and> entero_valido 1 (int (length (h ! padre1)) - 1) p \<longrightarrow>
    (\<exists>hijo1 hijo2.
       cruce h padre1 padre2 p = Inr (length h, Suc (length h), h @ [hijo1, hijo2])
       \<and> 1 \<le> p \<and> p < length (h ! padre1)
       \<and> hijo1 = take p (h ! padre1)
                  @ filter (\<lambda>gen. gen \<notin> set (take p (h ! padre1))) (h ! padre2)
       \<and> hijo2 = take p (h ! padre2)
                  @ filter (\<lambda>gen. gen \<notin> set (take p (h ! padre2))) (h ! padre1)
       \<and> distinct hijo1 \<and> set hijo1 = set (h ! padre1) \<and> length hijo1 = length (h ! padre1)
       \<and> distinct hijo2 \<and> set hijo2 = set (h ! padre1) \<and> length hijo2 = length (h ! padre1)))
   \<and> cruce [[0, 1, 2, 3], [3, 2, 1, 0]] 0 1 2
       = Inr (2, 3, [[0, 1, 2, 3], [3, 2, 1, 0], [0, 1, 3, 2], [3, 2, 0, 1]])"
proof (intro conjI impI)
  assume a: "distinct (h ! padre1) \<and> distinct (h ! padre2)
      \<and> set (h ! padre1) = set (h ! padre2)
      \<and> 2 \<le> length (h ! padre1)
      \<and> entero_valido 1 (int (length (h ! padre1)) - 1) p"
  let ?h1 = "take p (h ! padre1) @ filter (\<lambda>gen. gen \<notin> set (take p (h ! padre1))) (h ! padre2)"
  let ?h2 = "take p (h ! padre2) @ filter (\<lambda>gen. gen \<notin> set (take p (h ! padre2))) (h ! padre1)"
  from a have dp1: "distinct (h ! padre1)" and dp2: "distinct (h ! padre2)"
    and sp: "set (h ! padre1) = set (h ! padre2)" and lp: "2 \<le> length (h ! padre1)"
    by simp_all
  have p: "1 \<le> p" "p < length (h ! padre1)"
    using a by (simp_all add: entero_valido_def)
  have d1: "distinct ?h1"
    using dp1 dp2 by (rule hijo_distinct)
  have d2: "distinct ?h2"
    using dp2 dp1 by (rule hijo_distinct)
  have s1: "set ?h1 = set (h ! padre1)"
    using sp by (rule hijo_set)
  have s2: "set ?h2 = set (h ! padre1)"
    using hijo_set [of "h ! padre2" "h ! padre1" p] sp by simp
  have l1: "length ?h1 = length (h ! padre1)"
    using d1 s1 dp1 by (metis distinct_card)
  have l2: "length ?h2 = length (h ! padre1)"
    using d2 s2 dp1 by (metis distinct_card)
  show "\<exists>hijo1 hijo2.
       cruce h padre1 padre2 p = Inr (length h, Suc (length h), h @ [hijo1, hijo2])
       \<and> 1 \<le> p \<and> p < length (h ! padre1)
       \<and> hijo1 = take p (h ! padre1)
                  @ filter (\<lambda>gen. gen \<notin> set (take p (h ! padre1))) (h ! padre2)
       \<and> hijo2 = take p (h ! padre2)
                  @ filter (\<lambda>gen. gen \<notin> set (take p (h ! padre2))) (h ! padre1)
       \<and> distinct hijo1 \<and> set hijo1 = set (h ! padre1) \<and> length hijo1 = length (h ! padre1)
       \<and> distinct hijo2 \<and> set hijo2 = set (h ! padre1) \<and> length hijo2 = length (h ! padre1)"
    using cruce_eq [OF lp, of padre2 p] p d1 d2 s1 s2 l1 l2 by blast
next
  show "cruce [[0, 1, 2, 3], [3, 2, 1, 0]] 0 1 2
           = Inr (2, 3, [[0, 1, 2, 3], [3, 2, 1, 0], [0, 1, 3, 2], [3, 2, 0, 1]])"
    by code_simp
qed

theorem cruce_contrato_witness:
  "cruce [[1, 0, 2], [2, 1, 0]] 0 1 1 = Inr (2, 3, [[1, 0, 2], [2, 1, 0], [1, 2, 0], [2, 1, 0]])"
proof -
  let ?h = "[[1, 0, 2], [2, 1, 0 :: nat]]"
  have "distinct (?h ! 0)" and "distinct (?h ! 1)" and "2 \<le> length (?h ! 0)"
    and "entero_valido 1 (int (length (?h ! 0)) - 1) 1"
    by (simp_all add: entero_valido_def)
  moreover have "set (?h ! 0) = set (?h ! 1)"
    by auto
  ultimately show ?thesis
    using cruce_contrato [of ?h 0 1 1] by auto
qed

subsection \<open>Mutation\<close>

lemma mutacion_eq:
  "2 \<le> length (h ! individuo) \<Longrightarrow>
   mutacion h individuo (i1, i2) =
     Inr (individuo,
          h[individuo := (h ! individuo)[i1 := h ! individuo ! i2, i2 := h ! individuo ! i1]])"
  by (simp add: mutacion_def Let_def random_sample_def)

lemma mutacion_error:
  "length (h ! individuo) < 2 \<Longrightarrow> mutacion h individuo par = Inl ValueError"
  by (simp add: mutacion_def Let_def random_sample_def)

lemma muestra_par:
  "2 \<le> n \<Longrightarrow> muestra_valida n 2 [i1, i2] \<longleftrightarrow> i1 \<noteq> i2 \<and> i1 < n \<and> i2 < n"
  by (auto simp: muestra_valida_def)

text \<open>
  Claim C8. For an individual of length at least 2 and the two positions
  \<open>random.sample\<close> returns, which are distinct and in range: mutation succeeds, returns the
  same object, the contents of the two positions are exchanged, every other position keeps
  its contents, so the multiset of elements and the permutation property are preserved; no
  other object of the store changes.
\<close>

theorem mutacion_transposicion:
  assumes "individuo < length h" and "2 \<le> length (h ! individuo)"
    and "muestra_valida (length (h ! individuo)) 2 [i1, i2]"
  shows "\<exists>h'. mutacion h individuo (i1, i2) = Inr (individuo, h')
           \<and> i1 \<noteq> i2 \<and> i1 < length (h ! individuo) \<and> i2 < length (h ! individuo)
           \<and> length (h' ! individuo) = length (h ! individuo)
           \<and> h' ! individuo ! i1 = h ! individuo ! i2
           \<and> h' ! individuo ! i2 = h ! individuo ! i1
           \<and> (\<forall>k < length (h ! individuo). k \<noteq> i1 \<and> k \<noteq> i2 \<longrightarrow>
                 h' ! individuo ! k = h ! individuo ! k)
           \<and> mset (h' ! individuo) = mset (h ! individuo)
           \<and> (\<forall>n. es_permutacion n (h ! individuo) \<longrightarrow> es_permutacion n (h' ! individuo))
           \<and> length h' = length h
           \<and> (\<forall>r < length h. r \<noteq> individuo \<longrightarrow> h' ! r = h ! r)"
proof -
  let ?xs = "h ! individuo"
  let ?ys = "?xs[i1 := ?xs ! i2, i2 := ?xs ! i1]"
  have idx: "i1 \<noteq> i2" "i1 < length ?xs" "i2 < length ?xs"
    using assms(2,3) by (simp_all add: muestra_par)
  have m: "mset ?ys = mset ?xs"
    using idx by (simp add: mset_swap)
  then have s: "set ?ys = set ?xs" "distinct ?ys = distinct ?xs"
    by (metis set_mset_mset, metis m mset_eq_imp_distinct_iff)
  have perm: "es_permutacion n ?ys" if "es_permutacion n ?xs" for n
    using that s by (simp add: es_permutacion_def)
  have "mutacion h individuo (i1, i2) = Inr (individuo, h[individuo := ?ys])"
    using assms(2) by (rule mutacion_eq)
  moreover have "h[individuo := ?ys] ! individuo = ?ys"
    using assms(1) by simp
  ultimately show ?thesis
    using idx m perm by (intro exI [of _ "h[individuo := ?ys]"]) (simp add: nth_list_update)
qed

theorem mutacion_transposicion_witness:
  "\<exists>h'. mutacion [[0, 1, 2, 3], [3, 2, 1, 0]] 1 (0, 2) = Inr (1, h')
     \<and> h' ! 1 ! 0 = 1 \<and> h' ! 1 ! 1 = 2 \<and> h' ! 1 ! 2 = 3 \<and> h' ! 1 ! 3 = 0
     \<and> h' ! 0 = [0, 1, 2, 3]"
proof -
  let ?h = "[[0, 1, 2, 3], [3, 2, 1, 0 :: nat]]"
  have "1 < length ?h" and "2 \<le> length (?h ! 1)"
    and "muestra_valida (length (?h ! 1)) 2 [0, 2]"
    by (simp_all add: muestra_valida_def)
  from mutacion_transposicion [OF this] obtain h' where
    m: "mutacion ?h 1 (0, 2) = Inr (1, h')"
    and a: "h' ! 1 ! 0 = ?h ! 1 ! 2" "h' ! 1 ! 2 = ?h ! 1 ! 0"
    and k: "\<forall>k < length (?h ! 1). k \<noteq> 0 \<and> k \<noteq> 2 \<longrightarrow> h' ! 1 ! k = ?h ! 1 ! k"
    and o: "\<forall>r < length ?h. r \<noteq> 1 \<longrightarrow> h' ! r = ?h ! r"
    by blast
  from k [rule_format, of 1] k [rule_format, of 3] have "h' ! 1 ! 1 = 2" "h' ! 1 ! 3 = 0"
    by simp_all
  moreover from o [rule_format, of 0] have "h' ! 0 = [0, 1, 2, 3]"
    by simp
  ultimately show ?thesis
    using m a by (intro exI [of _ h']) simp
qed

section \<open>Properties of tournament selection\<close>

lemma min_scan:
  fixes fitness :: "rat list"
  assumes "\<forall>y \<in> set ys. y < length fitness"
  shows "\<exists>g. for_each (\<lambda>(m, fm) y. bind_e (indice fitness y) (\<lambda>fy.
                  Inr (if fy < fm then (y, fy) else (m, fm)))) (m, fitness ! m) ys
               = Inr (g, fitness ! g)
             \<and> g \<in> insert m (set ys) \<and> fitness ! g \<le> fitness ! m
             \<and> (\<forall>y \<in> set ys. fitness ! g \<le> fitness ! y)"
  using assms
proof (induction ys arbitrary: m)
  case Nil
  show ?case by simp
next
  case (Cons y ys)
  let ?m' = "if fitness ! y < fitness ! m then y else m"
  from Cons.prems have "\<forall>y \<in> set ys. y < length fitness" by simp
  from Cons.IH [OF this, of ?m'] obtain g where
    g: "for_each (\<lambda>(m, fm) y. bind_e (indice fitness y) (\<lambda>fy.
                  Inr (if fy < fm then (y, fy) else (m, fm)))) (?m', fitness ! ?m') ys
               = Inr (g, fitness ! g)"
       "g \<in> insert ?m' (set ys)" "fitness ! g \<le> fitness ! ?m'"
       "\<forall>y \<in> set ys. fitness ! g \<le> fitness ! y"
    by blast
  have step: "(if fitness ! y < fitness ! m then (y, fitness ! y) else (m, fitness ! m))
                = (?m', fitness ! ?m')"
    by simp
  have "for_each (\<lambda>(m, fm) y. bind_e (indice fitness y) (\<lambda>fy.
                  Inr (if fy < fm then (y, fy) else (m, fm)))) (m, fitness ! m) (y # ys)
               = Inr (g, fitness ! g)"
    using Cons.prems g(1) by (simp add: indice_def step del: if_split)
  moreover have "g \<in> insert m (set (y # ys))"
    using g(2) by (auto split: if_splits)
  moreover have "fitness ! g \<le> fitness ! m" "fitness ! g \<le> fitness ! y"
    using g(3) by (auto split: if_splits)
  ultimately show ?case
    using g(4) by auto
qed

lemma min_key_ok:
  assumes "xs \<noteq> []" and "\<forall>x \<in> set xs. x < length fitness"
  shows "\<exists>g \<in> set xs. min_key (indice fitness) xs = Inr g
             \<and> (\<forall>x \<in> set xs. fitness ! g \<le> fitness ! x)"
proof -
  from assms(1) obtain x ys where xs: "xs = x # ys"
    by (cases xs) auto
  with assms(2) have "\<forall>y \<in> set ys. y < length fitness" "x < length fitness"
    by simp_all
  from min_scan [OF this(1), of x] obtain g where
    g: "for_each (\<lambda>(m, fm) y. bind_e (indice fitness y) (\<lambda>fy.
                  Inr (if fy < fm then (y, fy) else (m, fm)))) (x, fitness ! x) ys
               = Inr (g, fitness ! g)"
       "g \<in> insert x (set ys)" "fitness ! g \<le> fitness ! x"
       "\<forall>y \<in> set ys. fitness ! g \<le> fitness ! y"
    by blast
  have "min_key (indice fitness) xs = Inr g"
    using \<open>x < length fitness\<close> g(1) by (simp add: min_key_def xs indice_def)
  then show ?thesis
    using g(2-4) xs by auto
qed

lemma seleccion_torneo_ok:
  assumes "length fitness = length poblacion"
    and "muestra_valida (length poblacion) k muestra"
    and "1 \<le> k" and "k \<le> int (length poblacion)"
  shows "\<exists>g \<in> set muestra. g < length poblacion
           \<and> seleccion_torneo h poblacion fitness k muestra
               = Inr (length h, h @ [h ! (poblacion ! g)])
           \<and> (\<forall>x \<in> set muestra. fitness ! g \<le> fitness ! x)"
proof -
  have m: "int (length muestra) = k" "\<forall>x \<in> set muestra. x < length poblacion"
    using assms(2-4) by (simp_all add: muestra_valida_def)
  then have "muestra \<noteq> []" "\<forall>x \<in> set muestra. x < length fitness"
    using assms(1,3) by auto
  from min_key_ok [OF this] obtain g where
    g: "g \<in> set muestra" "min_key (indice fitness) muestra = Inr g"
       "\<forall>x \<in> set muestra. fitness ! g \<le> fitness ! x"
    by blast
  then have "g < length poblacion"
    using m(2) by simp
  then have "seleccion_torneo h poblacion fitness k muestra
               = Inr (length h, h @ [h ! (poblacion ! g)])"
    using assms(3,4) g(2)
    by (simp add: seleccion_torneo_def random_sample_def indice_def nuevo_def)
  with g \<open>g < length poblacion\<close> show ?thesis by blast
qed

lemma seleccion_torneo_error:
  assumes "muestra_valida (length poblacion) k muestra"
    and "\<not> (1 \<le> k \<and> k \<le> int (length poblacion))"
  shows "seleccion_torneo h poblacion fitness k muestra = Inl ValueError"
proof (cases "k = 0")
  case True
  with assms(1) have "muestra = []"
    by (simp add: muestra_valida_def)
  with True show ?thesis
    by (simp add: seleccion_torneo_def random_sample_def min_key_def)
next
  case False
  with assms(2) have "\<not> (0 \<le> k \<and> k \<le> int (length poblacion))"
    by linarith
  then have "random_sample (length poblacion) k muestra = Inl ValueError"
    unfolding random_sample_def by (rule if_not_P)
  then show ?thesis
    by (simp add: seleccion_torneo_def)
qed

text \<open>
  Claim C7, amended. Given a population of objects of the store, a fitness vector of the
  same length and the sample \<open>random.sample\<close> returns for tournament size \<open>k\<close>: the
  selection succeeds exactly when \<open>1 \<le> k\<close> and \<open>k\<close> does not exceed the population size, and
  fails with \<open>ValueError\<close> otherwise. On success it returns a new object, not one of the
  population, whose contents are those of a candidate with the least fitness among the
  sampled indices; the population's objects keep their contents, also when the returned
  object is mutated afterwards.
\<close>

theorem seleccion_torneo_contrato:
  assumes "length fitness = length poblacion"
    and "\<forall>r \<in> set poblacion. r < length h"
    and "muestra_valida (length poblacion) k muestra"
  shows "(1 \<le> k \<and> k \<le> int (length poblacion) \<longrightarrow>
            (\<exists>g \<in> set muestra. g < length poblacion
               \<and> seleccion_torneo h poblacion fitness k muestra
                   = Inr (length h, h @ [h ! (poblacion ! g)])
               \<and> (\<forall>x \<in> set muestra. fitness ! g \<le> fitness ! x))
            \<and> length h \<notin> set poblacion
            \<and> (\<forall>c. \<forall>r \<in> set poblacion. (h @ [c]) ! r = h ! r)
            \<and> (\<forall>c par r' h'. mutacion (h @ [c]) (length h) par = Inr (r', h') \<longrightarrow>
                  (\<forall>r \<in> set poblacion. h' ! r = h ! r)))
         \<and> (\<not> (1 \<le> k \<and> k \<le> int (length poblacion)) \<longrightarrow>
              seleccion_torneo h poblacion fitness k muestra = Inl ValueError)"
proof (intro conjI impI)
  assume k: "1 \<le> k \<and> k \<le> int (length poblacion)"
  then show "\<exists>g \<in> set muestra. g < length poblacion
               \<and> seleccion_torneo h poblacion fitness k muestra
                   = Inr (length h, h @ [h ! (poblacion ! g)])
               \<and> (\<forall>x \<in> set muestra. fitness ! g \<le> fitness ! x)"
    using assms(1,3) by (intro seleccion_torneo_ok) simp_all
next
  show "length h \<notin> set poblacion"
    using assms(2) by auto
next
  show "\<forall>c. \<forall>r \<in> set poblacion. (h @ [c]) ! r = h ! r"
    using assms(2) by (simp add: nth_append)
next
  show "\<forall>c par r' h'. mutacion (h @ [c]) (length h) par = Inr (r', h') \<longrightarrow>
          (\<forall>r \<in> set poblacion. h' ! r = h ! r)"
  proof (intro allI impI ballI)
    fix c par r' h' r
    assume mut: "mutacion (h @ [c]) (length h) par = Inr (r', h')" and r: "r \<in> set poblacion"
    then have "r < length h" using assms(2) by simp
    from mut have "\<exists>ys. h' = (h @ [c])[length h := ys]"
      by (auto simp: mutacion_def Let_def random_sample_def split: if_splits)
    then show "h' ! r = h ! r"
      using \<open>r < length h\<close> by (auto simp: nth_append)
  qed
next
  assume "\<not> (1 \<le> k \<and> k \<le> int (length poblacion))"
  with assms(3) show "seleccion_torneo h poblacion fitness k muestra = Inl ValueError"
    by (rule seleccion_torneo_error)
qed

theorem seleccion_torneo_contrato_witness:
  "seleccion_torneo [[0, 1, 2], [1, 0, 2], [2, 1, 0]] [0, 1, 2] [5, 3, 3] 2 [2, 1]
     = Inr (3, [[0, 1, 2], [1, 0, 2], [2, 1, 0], [2, 1, 0]])
   \<and> seleccion_torneo [[0, 1, 2], [1, 0, 2], [2, 1, 0]] [0, 1, 2] [5, 3, 3] 4 []
     = Inl ValueError"
proof -
  let ?h = "[[0, 1, 2], [1, 0, 2], [2, 1, 0 :: nat]]"
  have 1: "length [5, 3, 3 :: rat] = length [0, 1, 2 :: nat]"
    and 2: "\<forall>r \<in> set [0, 1, 2 :: nat]. r < length ?h"
    and 3: "muestra_valida (length [0, 1, 2 :: nat]) 2 [2, 1]"
    and 4: "muestra_valida (length [0, 1, 2 :: nat]) 4 []"
    by (simp_all add: muestra_valida_def)
  have a: "seleccion_torneo ?h [0, 1, 2] [5, 3, 3] 4 [] = Inl ValueError"
    using seleccion_torneo_contrato [OF 1 2 4] by simp
  have "\<exists>g \<in> set [2, 1 :: nat]. seleccion_torneo ?h [0, 1, 2] [5, 3, 3] 2 [2, 1]
                   = Inr (length ?h, ?h @ [?h ! ([0, 1, 2] ! g)])
               \<and> (\<forall>x \<in> set [2, 1 :: nat]. [5, 3, 3 :: rat] ! g \<le> [5, 3, 3] ! x)"
    using seleccion_torneo_contrato [OF 1 2 3] by simp
  moreover have "seleccion_torneo ?h [0, 1, 2] [5, 3, 3] 2 [2, 1]
      = Inr (3, [[0, 1, 2], [1, 0, 2], [2, 1, 0], [2, 1, 0]])"
    by code_simp
  ultimately show ?thesis using a by simp
qed

text \<open>
  Claim C7 as stated fails for the tournament size 0, which does not exceed the population
  size: the sample is empty and \<open>min\<close> raises \<open>ValueError\<close>.
\<close>

theorem seleccion_torneo_cero_counterexample:
  "(0::int) \<le> int (length [0::nat]) \<and> muestra_valida (length [0::nat]) 0 []
   \<and> seleccion_torneo [[0]] [0] [0] 0 [] = Inl ValueError"
  by (simp add: muestra_valida_def seleccion_torneo_def random_sample_def min_key_def)

section \<open>Properties of the evolution loop\<close>

subsection \<open>Size of the new population\<close>

lemma bind_e_eq_Inr: "bind_e m f = Inr y \<longleftrightarrow> (\<exists>x. m = Inr x \<and> f x = Inr y)"
  by (cases m) simp_all



lemma bucle_reproduccion_length:
  assumes "bucle_reproduccion poblacion fitness sorteos h nueva = Inr (nueva', h')"
    and "even (length nueva)"
    and "length nueva \<le> length poblacion + length poblacion mod 2"
  shows "length nueva' = length poblacion + length poblacion mod 2"
  using assms
proof (induction poblacion fitness sorteos h nueva rule: bucle_reproduccion.induct)
  case (1 poblacion fitness sorteos h nueva)
  show ?case
  proof (cases "length nueva < length poblacion")
    case True
    with "1.prems"(1) obtain m1 m2 h1 where
      r: "reproducir h poblacion fitness (sorteos 0) = Inr (m1, m2, h1)"
      and b: "bucle_reproduccion poblacion fitness (\<lambda>i. sorteos (Suc i)) h1 (nueva @ [m1, m2])
                = Inr (nueva', h')"
      by (subst (asm) bucle_reproduccion.simps) (auto split: sum.splits)
    have "even (length (nueva @ [m1, m2]))"
      using "1.prems"(2) by simp
    moreover have "length (nueva @ [m1, m2]) \<le> length poblacion + length poblacion mod 2"
    proof -
      have "length nueva + 2 \<le> length poblacion + length poblacion mod 2"
        using True "1.prems"(2) by presburger
      then show ?thesis by simp
    qed
    ultimately show ?thesis
      using "1.IH" [OF True r refl refl b] by simp
  next
    case False
    with "1.prems"(1) have "nueva' = nueva"
      by (subst (asm) bucle_reproduccion.simps) simp
    moreover have "length nueva = length poblacion + length poblacion mod 2"
      using False "1.prems"(2,3) by presburger
    ultimately show ?thesis by simp
  qed
qed

lemma comprension_length: "comprension f xs = Inr ys \<Longrightarrow> length ys = length xs"
  by (induction xs arbitrary: ys) (auto simp: bind_e_eq_Inr)

lemma generacion_Inr:
  "generacion preferencias tamanos sorteos h poblacion = Inr (nueva, fitness, h') \<longleftrightarrow>
     comprension (\<lambda>individuo. evaluar_solucion (h ! individuo) preferencias tamanos) poblacion
       = Inr fitness
     \<and> bucle_reproduccion poblacion fitness sorteos h [] = Inr (nueva, h')"
  by (auto simp: generacion_def bind_e_eq_Inr)

subsection \<open>Permutations\<close>

lemma es_permutacion_length: "es_permutacion n xs \<Longrightarrow> length xs = n"
  unfolding es_permutacion_def by (metis distinct_card distinct_upt length_upt diff_zero)

lemma es_permutacion_identidad: "es_permutacion n [0 ..< n]"
  by (simp add: es_permutacion_def)

lemma es_permutacion_hijo:
  assumes "es_permutacion n p1" and "es_permutacion n p2"
  shows "es_permutacion n (take p p1 @ filter (\<lambda>gen. gen \<notin> set (take p p1)) p2)"
proof -
  have "set p1 = set p2"
    using assms by (simp add: es_permutacion_def)
  from hijo_set [OF this, of p] hijo_distinct [of p1 p2 p] assms show ?thesis
    by (simp add: es_permutacion_def)
qed

lemma es_permutacion_swap:
  assumes "es_permutacion n xs" and "i1 < length xs" and "i2 < length xs"
  shows "es_permutacion n (xs[i1 := xs ! i2, i2 := xs ! i1])"
proof -
  have m: "mset (xs[i1 := xs ! i2, i2 := xs ! i1]) = mset xs"
    using assms(2,3) by (simp add: mset_swap)
  then have "set (xs[i1 := xs ! i2, i2 := xs ! i1]) = set xs"
    by (rule mset_eq_setD)
  moreover have "distinct (xs[i1 := xs ! i2, i2 := xs ! i1]) = distinct xs"
    using m by (rule mset_eq_imp_distinct_iff)
  ultimately show ?thesis
    using assms(1) by (simp add: es_permutacion_def)
qed

subsection \<open>What each operation does to the store\<close>

lemma seleccion_torneo_forma:
  assumes "seleccion_torneo h poblacion fitness k muestra = Inr (p, h1)"
  shows "\<exists>g < length poblacion. p = length h \<and> h1 = h @ [h ! (poblacion ! g)]"
  using assms
  by (auto simp: seleccion_torneo_def bind_e_eq_Inr indice_def nuevo_def split: if_splits)

lemma cruce_forma:
  assumes "cruce h padre1 padre2 p = Inr (hijo1, hijo2, h')"
  shows "hijo1 = length h \<and> hijo2 = Suc (length h)
     \<and> h' = h @ [take p (h ! padre1) @ filter (\<lambda>gen. gen \<notin> set (take p (h ! padre1))) (h ! padre2),
                 take p (h ! padre2) @ filter (\<lambda>gen. gen \<notin> set (take p (h ! padre2))) (h ! padre1)]"
  using assms
  by (auto simp: cruce_def Let_def bind_e_eq_Inr random_randint_def nuevo_def split: if_splits)

lemma mutacion_forma:
  assumes "mutacion h individuo par = Inr (r, h')"
  shows "r = individuo \<and> 2 \<le> length (h ! individuo)
     \<and> h' = h[individuo := (h ! individuo)[fst par := h ! individuo ! snd par,
                                            snd par := h ! individuo ! fst par]]"
  using assms
  by (auto simp: mutacion_def Let_def bind_e_eq_Inr random_sample_def split: if_splits)


lemma quiza_mutacion_forma:
  assumes "(if b then mutacion h individuo par else Inr (individuo, h)) = Inr (r, h')"
    and "individuo < length h" and "es_permutacion n (h ! individuo)"
    and "muestra_valida n 2 [fst par, snd par]"
  shows "\<exists>ys. r = individuo \<and> h' = h[individuo := ys] \<and> es_permutacion n ys"
proof (cases b)
  case False
  with assms(1) have "r = individuo" "h' = h[individuo := h ! individuo]"
    by simp_all
  with assms(3) show ?thesis by blast
next
  case True
  let ?xs = "h ! individuo"
  from True assms(1) have m: "mutacion h individuo par = Inr (r, h')"
    by simp
  from mutacion_forma [OF m] have r: "r = individuo" and l: "2 \<le> length ?xs"
    and h': "h' = h[individuo := ?xs[fst par := ?xs ! snd par, snd par := ?xs ! fst par]]"
    by simp_all
  have n: "length ?xs = n"
    using assms(3) by (rule es_permutacion_length)
  with l assms(4) have "fst par < length ?xs" "snd par < length ?xs"
    by (simp_all add: muestra_par)
  with assms(3) have "es_permutacion n (?xs[fst par := ?xs ! snd par, snd par := ?xs ! fst par])"
    by (rule es_permutacion_swap)
  with r h' show ?thesis by blast
qed

lemma quiza_cruce_forma:
  assumes "(if b then cruce h padre1 padre2 p
            else (let (hijo1, h) = nuevo h (h ! padre1);
                      (hijo2, h) = nuevo h (h ! padre2)
                  in Inr (hijo1, hijo2, h))) = Inr (hijo1, hijo2, h')"
    and "padre1 < length h" and "padre2 < length h"
    and "es_permutacion n (h ! padre1)" and "es_permutacion n (h ! padre2)"
  shows "\<exists>x y. hijo1 = length h \<and> hijo2 = Suc (length h) \<and> h' = h @ [x, y]
           \<and> es_permutacion n x \<and> es_permutacion n y"
proof (cases b)
  case False
  with assms(1,2,3) have "hijo1 = length h" "hijo2 = Suc (length h)"
    "h' = h @ [h ! padre1, h ! padre2]"
    by (simp_all add: nuevo_def nth_append)
  with assms(4,5) show ?thesis by blast
next
  case True
  with assms(1) have "cruce h padre1 padre2 p = Inr (hijo1, hijo2, h')"
    by simp
  from cruce_forma [OF this] es_permutacion_hijo [OF assms(4,5), of p]
    es_permutacion_hijo [OF assms(5,4), of p]
  show ?thesis by blast
qed

lemma reproducir_forma:
  assumes ok: "reproducir h poblacion fitness s = Inr (m1, m2, h')"
    and pob: "\<forall>r \<in> set poblacion. r < length h \<and> es_permutacion n (h ! r)"
    and val: "mutaciones_validas n s"
  shows "\<exists>a b x y. m1 = length h + 2 \<and> m2 = length h + 3 \<and> h' = h @ [a, b, x, y]
           \<and> es_permutacion n x \<and> es_permutacion n y"
proof -
  from ok obtain p1 h1 p2 h2 k1 k2 h3 h4 where
    s1: "seleccion_torneo h poblacion fitness 3 (torneo1 s) = Inr (p1, h1)"
    and s2: "seleccion_torneo h1 poblacion fitness 3 (torneo2 s) = Inr (p2, h2)"
    and c: "(if cruza s then cruce h2 p1 p2 (punto s)
             else (let (hijo1, h) = nuevo h2 (h2 ! p1);
                       (hijo2, h) = nuevo h (h ! p2)
                   in Inr (hijo1, hijo2, h))) = Inr (k1, k2, h3)"
    and mu1: "(if muta1 s then mutacion h3 k1 (indices1 s) else Inr (k1, h3)) = Inr (m1, h4)"
    and mu2: "(if muta2 s then mutacion h4 k2 (indices2 s) else Inr (k2, h4)) = Inr (m2, h')"
    by (auto simp: reproducir_def bind_e_eq_Inr split: prod.splits simp del: split_paired_Ex)
  from seleccion_torneo_forma [OF s1] obtain g1 where
    g1: "g1 < length poblacion" "p1 = length h" "h1 = h @ [h ! (poblacion ! g1)]"
    by blast
  let ?a = "h ! (poblacion ! g1)"
  from seleccion_torneo_forma [OF s2] obtain g2 where
    g2: "g2 < length poblacion" "p2 = length h1" "h2 = h1 @ [h1 ! (poblacion ! g2)]"
    by blast
  let ?b = "h ! (poblacion ! g2)"
  have a: "poblacion ! g1 < length h" "es_permutacion n ?a"
    and b: "poblacion ! g2 < length h" "es_permutacion n ?b"
    using pob g1(1) g2(1) by simp_all
  have h2: "h2 = h @ [?a, ?b]" and p2: "p2 = Suc (length h)"
    using g1 g2 b(1) by (simp_all add: nth_append)
  have "p1 < length h2" "p2 < length h2" "h2 ! p1 = ?a" "h2 ! p2 = ?b"
    using g1(2) p2 h2 by (simp_all add: nth_append)
  with quiza_cruce_forma [OF c, of n] a(2) b(2) obtain x y where
    xy: "k1 = length h2" "k2 = Suc (length h2)" "h3 = h2 @ [x, y]"
        "es_permutacion n x" "es_permutacion n y"
    by auto
  have h3: "h3 = h @ [?a, ?b, x, y]" and k: "k1 = length h + 2" "k2 = length h + 3"
    using xy(1-3) h2 by simp_all
  have "k1 < length h3" "h3 ! k1 = x"
    using h3 k by (simp_all add: nth_append)
  with quiza_mutacion_forma [OF mu1, of n] xy(4) val obtain x' where
    x': "m1 = k1" "h4 = h3[k1 := x']" "es_permutacion n x'"
    by (auto simp: mutaciones_validas_def)
  have h4: "h4 = h @ [?a, ?b, x', y]"
    using x'(2) h3 k by (simp add: list_update_append)
  have "k2 < length h4" "h4 ! k2 = y"
    using h4 k by (simp_all add: nth_append)
  with quiza_mutacion_forma [OF mu2, of n] xy(5) val obtain y' where
    y': "m2 = k2" "h' = h4[k2 := y']" "es_permutacion n y'"
    by (auto simp: mutaciones_validas_def)
  have "h' = h @ [?a, ?b, x', y']"
    using y'(2) h4 k by (simp add: list_update_append)
  with x' y' k show ?thesis by blast
qed

subsection \<open>Every candidate stays a permutation\<close>

lemma candidatos_validos_append:
  "candidatos_validos n h poblacion \<Longrightarrow> candidatos_validos n (h @ ext) poblacion"
  by (auto simp: candidatos_validos_def nth_append)

lemma bucle_reproduccion_perm:
  assumes "bucle_reproduccion poblacion fitness sorteos h nueva = Inr (nueva', h')"
    and "candidatos_validos n h poblacion"
    and "candidatos_validos n h nueva"
    and "\<forall>i. mutaciones_validas n (sorteos i)"
  shows "candidatos_validos n h' nueva' \<and> (\<exists>ext. h' = h @ ext)"
  using assms
proof (induction poblacion fitness sorteos h nueva rule: bucle_reproduccion.induct)
  case (1 poblacion fitness sorteos h nueva)
  show ?case
  proof (cases "length nueva < length poblacion")
    case False
    with "1.prems"(1) have "nueva' = nueva" "h' = h"
      by (subst (asm) bucle_reproduccion.simps, simp)+
    with "1.prems"(3) show ?thesis by simp
  next
    case True
    with "1.prems"(1) obtain m1 m2 h1 where
      r: "reproducir h poblacion fitness (sorteos 0) = Inr (m1, m2, h1)"
      and b: "bucle_reproduccion poblacion fitness (\<lambda>i. sorteos (Suc i)) h1 (nueva @ [m1, m2])
                = Inr (nueva', h')"
      by (subst (asm) bucle_reproduccion.simps) (auto split: sum.splits)
    from "1.prems"(2,4) have "\<forall>r \<in> set poblacion. r < length h \<and> es_permutacion n (h ! r)"
      "mutaciones_validas n (sorteos 0)"
      by (simp_all add: candidatos_validos_def)
    from reproducir_forma [OF r this] obtain a b x y where
      f: "m1 = length h + 2" "m2 = length h + 3" "h1 = h @ [a, b, x, y]"
         "es_permutacion n x" "es_permutacion n y"
      by blast
    have p1: "candidatos_validos n h1 poblacion"
      using "1.prems"(2) f(3) by (simp add: candidatos_validos_append)
    have "candidatos_validos n h1 nueva"
      using "1.prems"(3) f(3) by (simp add: candidatos_validos_append)
    moreover have "m1 < length h1" "m2 < length h1" "h1 ! m1 = x" "h1 ! m2 = y"
      using f(1-3) by (simp_all add: nth_append)
    ultimately have n1: "candidatos_validos n h1 (nueva @ [m1, m2])"
      using f(4,5) by (simp add: candidatos_validos_def)
    have "\<forall>i. mutaciones_validas n (sorteos (Suc i))"
      using "1.prems"(4) by simp
    from "1.IH" [OF True r refl refl b p1 n1 this] f(3) show ?thesis
      by auto
  qed
qed

lemma generacion_perm:
  assumes "generacion preferencias tamanos sorteos h poblacion = Inr (nueva, fitness, h')"
    and "candidatos_validos n h poblacion"
    and "\<forall>i. mutaciones_validas n (sorteos i)"
  shows "candidatos_validos n h' nueva \<and> (\<exists>ext. h' = h @ ext)"
proof -
  from assms(1) have "bucle_reproduccion poblacion fitness sorteos h [] = Inr (nueva, h')"
    by (simp add: generacion_Inr)
  from bucle_reproduccion_perm [OF this assms(2) _ assms(3)] show ?thesis
    by (simp add: candidatos_validos_def)
qed

lemma evolucionar_Suc_Inr:
  assumes "evolucionar (Suc g) preferencias tamanos sorteos e = Inr (nueva, f, h')"
  shows "\<exists>poblacion f0 h fitness.
           evolucionar g preferencias tamanos sorteos e = Inr (poblacion, f0, h)
           \<and> generacion preferencias tamanos (sorteos g) h poblacion = Inr (nueva, fitness, h')
           \<and> f = Some fitness"
  using assms by (auto simp: bind_e_eq_Inr split: prod.splits simp del: split_paired_Ex)

lemma evolucionar_perm:
  assumes "evolucionar g preferencias tamanos sorteos (poblacion0, f0, h0) = Inr (poblacion, f, h)"
    and "candidatos_validos n h0 poblacion0"
    and "\<forall>g i. mutaciones_validas n (sorteos g i)"
  shows "candidatos_validos n h poblacion"
  using assms(1)
proof (induction g arbitrary: poblacion f h)
  case 0
  with assms(2) show ?case by simp
next
  case (Suc g)
  from evolucionar_Suc_Inr [OF Suc.prems] obtain p1 f1 h1 fitness where
    e: "evolucionar g preferencias tamanos sorteos (poblacion0, f0, h0) = Inr (p1, f1, h1)"
    and gen: "generacion preferencias tamanos (sorteos g) h1 p1 = Inr (poblacion, fitness, h)"
    by blast
  from Suc.IH [OF e] have "candidatos_validos n h1 p1" .
  from generacion_perm [OF gen this] assms(3) show ?case
    by simp
qed

lemma inicializar_poblacion_perm:
  "candidatos_validos (nat n) (snd (inicializar_poblacion [] n)) (fst (inicializar_poblacion [] n))"
  by (simp add: inicializar_poblacion_eq candidatos_validos_def es_permutacion_identidad)

subsection \<open>A generation on well-formed data completes\<close>

lemma comprension_ok:
  "\<forall>x \<in> set xs. \<exists>y. f x = Inr y \<Longrightarrow> \<exists>ys. comprension f xs = Inr ys"
  by (induction xs) auto

lemma evaluar_solucion_ok:
  assumes "es_permutacion n orden" and "n \<le> length tamanos"
    and "length preferencias = n" and "\<forall>fila \<in> set preferencias. length fila = n"
  shows "\<exists>c. evaluar_solucion orden preferencias tamanos = Inr c"
proof -
  have l: "length orden = n"
    using assms(1) by (rule es_permutacion_length)
  have "\<And>k. k < length orden \<Longrightarrow> orden ! k < length tamanos"
  proof -
    fix k assume "k < length orden"
    then have "orden ! k \<in> set orden" by simp
    then have "orden ! k < n"
      using assms(1) by (simp add: es_permutacion_def)
    with assms(2) show "orden ! k < length tamanos" by simp
  qed
  moreover have "\<And>i j. i < j \<Longrightarrow> j < length orden \<Longrightarrow>
      entrada preferencias i j = Inr (preferencias ! i ! j)"
    using assms(3,4) l by (simp add: entrada_def indice_def)
  ultimately have "evaluar_solucion orden preferencias tamanos =
     Inr (\<Sum>i = 0 ..< length orden - 1. \<Sum>j = i + 1 ..< length orden.
            distancia_spec orden tamanos i j * of_int (preferencias ! i ! j))"
    by (rule evaluar_solucion_suma)
  then show ?thesis ..
qed

lemma quiza_cruce_ok:
  assumes "2 \<le> length (h ! padre1)"
  shows "\<exists>k1 k2 h'. (if b then cruce h padre1 padre2 p
            else (let (hijo1, h) = nuevo h (h ! padre1);
                      (hijo2, h) = nuevo h (h ! padre2)
                  in Inr (hijo1, hijo2, h))) = Inr (k1, k2, h')"
  using assms by (simp add: cruce_eq nuevo_def)

lemma quiza_mutacion_ok:
  assumes "2 \<le> length (h ! individuo)"
  shows "\<exists>r h'. (if b then mutacion h individuo par else Inr (individuo, h)) = Inr (r, h')"
  using mutacion_eq [OF assms, of "fst par" "snd par"] by simp

lemma reproducir_ok:
  assumes pob: "candidatos_validos n h poblacion" and n: "2 \<le> n"
    and len: "length fitness = length poblacion" and m: "3 \<le> length poblacion"
    and val: "sorteo_valido (length poblacion) n s"
  shows "\<exists>m1 m2 h'. reproducir h poblacion fitness s = Inr (m1, m2, h')"
proof -
  have t: "muestra_valida (length poblacion) 3 (torneo1 s)"
      "muestra_valida (length poblacion) 3 (torneo2 s)" "mutaciones_validas n s"
    using val by (simp_all add: sorteo_valido_def)
  have k: "(1::int) \<le> 3" "3 \<le> int (length poblacion)"
    using m by simp_all
  from seleccion_torneo_ok [OF len t(1) k, of h] obtain g1 where
    g1: "g1 < length poblacion"
    and s1: "seleccion_torneo h poblacion fitness 3 (torneo1 s)
               = Inr (length h, h @ [h ! (poblacion ! g1)])"
    by blast
  let ?a = "h ! (poblacion ! g1)"
  from seleccion_torneo_ok [OF len t(2) k, of "h @ [?a]"] obtain g2 where
    g2: "g2 < length poblacion"
    and s2: "seleccion_torneo (h @ [?a]) poblacion fitness 3 (torneo2 s)
               = Inr (length (h @ [?a]), (h @ [?a]) @ [(h @ [?a]) ! (poblacion ! g2)])"
    by blast
  let ?h2 = "(h @ [?a]) @ [(h @ [?a]) ! (poblacion ! g2)]"
  have a: "poblacion ! g1 < length h" "es_permutacion n ?a"
    and b: "poblacion ! g2 < length h" "es_permutacion n (h ! (poblacion ! g2))"
    using pob g1 g2 by (simp_all add: candidatos_validos_def)
  have h2: "?h2 ! length h = ?a" "?h2 ! length (h @ [?a]) = h ! (poblacion ! g2)"
    using b(1) by (simp_all add: nth_append)
  have "length ?a = n"
    using a(2) by (rule es_permutacion_length)
  with n have "2 \<le> length (?h2 ! length h)"
    by (simp only: h2)
  from quiza_cruce_ok [OF this, of "cruza s" "length (h @ [?a])" "punto s"] obtain k1 k2 h3 where
    c: "(if cruza s then cruce ?h2 (length h) (length (h @ [?a])) (punto s)
         else (let (hijo1, hx) = nuevo ?h2 (?h2 ! length h);
                   (hijo2, hy) = nuevo hx (hx ! length (h @ [?a]))
               in Inr (hijo1, hijo2, hy))) = Inr (k1, k2, h3)"
    by (elim exE)
  have "length h < length ?h2" "length (h @ [?a]) < length ?h2"
    by simp_all
  moreover have "es_permutacion n (?h2 ! length h)" "es_permutacion n (?h2 ! length (h @ [?a]))"
    using a(2) b(2) by (simp_all only: h2)
  ultimately obtain x y where
    xy: "k1 = length ?h2" "k2 = Suc (length ?h2)" "h3 = ?h2 @ [x, y]"
        "es_permutacion n x" "es_permutacion n y"
    using quiza_cruce_forma [OF c, of n] by blast
  have "h3 ! k1 = x" "length x = n"
    using xy(1,3,4) by (simp_all add: nth_append es_permutacion_length)
  with n have "2 \<le> length (h3 ! k1)"
    by simp
  from quiza_mutacion_ok [OF this, of "muta1 s" "indices1 s"] obtain m1 h4 where
    mu1: "(if muta1 s then mutacion h3 k1 (indices1 s) else Inr (k1, h3)) = Inr (m1, h4)"
    by (elim exE)
  have "k1 < length h3" "es_permutacion n (h3 ! k1)"
    using xy(1,3,4) by (simp_all add: nth_append)
  with quiza_mutacion_forma [OF mu1, of n] t(3) obtain x' where
    x': "h4 = h3[k1 := x']"
    by (auto simp: mutaciones_validas_def)
  have "h4 ! k2 = y"
    using x' xy(1-3) by (simp add: nth_append)
  then have "2 \<le> length (h4 ! k2)"
    using xy(5) n by (simp add: es_permutacion_length)
  from quiza_mutacion_ok [OF this, of "muta2 s" "indices2 s"] obtain m2 h5 where
    mu2: "(if muta2 s then mutacion h4 k2 (indices2 s) else Inr (k2, h4)) = Inr (m2, h5)"
    by (elim exE)
  have "reproducir h poblacion fitness s = Inr (m1, m2, h5)"
    unfolding reproducir_def s1 bind_e_Inr prod.case s2 c mu1 mu2 ..
  then show ?thesis by blast
qed

lemma bucle_reproduccion_ok:
  assumes "candidatos_validos n h poblacion" and "2 \<le> n"
    and "length fitness = length poblacion" and "3 \<le> length poblacion"
    and "\<forall>i. sorteo_valido (length poblacion) n (sorteos i)"
  shows "\<exists>nueva' h'. bucle_reproduccion poblacion fitness sorteos h nueva = Inr (nueva', h')"
  using assms
proof (induction poblacion fitness sorteos h nueva rule: bucle_reproduccion.induct)
  case (1 poblacion fitness sorteos h nueva)
  show ?case
  proof (cases "length nueva < length poblacion")
    case False
    then show ?thesis
      by (subst bucle_reproduccion.simps) simp
  next
    case True
    from "1.prems"(5) have v: "sorteo_valido (length poblacion) n (sorteos 0)"
      by simp
    from reproducir_ok [OF "1.prems"(1-4) v] obtain m1 m2 h1 where
      r: "reproducir h poblacion fitness (sorteos 0) = Inr (m1, m2, h1)"
      by blast
    from v have "mutaciones_validas n (sorteos 0)"
      by (simp add: sorteo_valido_def)
    with reproducir_forma [OF r, of n] "1.prems"(1) obtain ext where "h1 = h @ ext"
      by (auto simp: candidatos_validos_def)
    with "1.prems"(1) have p1: "candidatos_validos n h1 poblacion"
      by (simp add: candidatos_validos_append)
    have "\<forall>i. sorteo_valido (length poblacion) n (sorteos (Suc i))"
      using "1.prems"(5) by simp
    from "1.IH" [OF True r refl refl p1 "1.prems"(2-4) this] obtain nueva' h' where
      "bucle_reproduccion poblacion fitness (\<lambda>i. sorteos (Suc i)) h1 (nueva @ [m1, m2])
         = Inr (nueva', h')"
      by blast
    with True r show ?thesis
      by (subst bucle_reproduccion.simps) simp
  qed
qed

lemma generacion_ok:
  assumes pob: "candidatos_validos n h poblacion" and n: "2 \<le> n"
    and tam: "n \<le> length tamanos"
    and pref: "length preferencias = n" "\<forall>fila \<in> set preferencias. length fila = n"
    and m: "3 \<le> length poblacion"
    and val: "\<forall>i. sorteo_valido (length poblacion) n (sorteos i)"
  shows "\<exists>nueva fitness h'.
           generacion preferencias tamanos sorteos h poblacion = Inr (nueva, fitness, h')"
proof -
  have "\<forall>r \<in> set poblacion. \<exists>c. evaluar_solucion (h ! r) preferencias tamanos = Inr c"
    using pob tam pref by (auto simp: candidatos_validos_def intro: evaluar_solucion_ok)
  from comprension_ok [OF this] obtain fitness where
    f: "comprension (\<lambda>individuo. evaluar_solucion (h ! individuo) preferencias tamanos) poblacion
          = Inr fitness"
    by blast
  then have "length fitness = length poblacion"
    by (rule comprension_length)
  from bucle_reproduccion_ok [OF pob n this m val] obtain nueva h' where
    "bucle_reproduccion poblacion fitness sorteos h [] = Inr (nueva, h')"
    by blast
  with f show ?thesis
    by (simp add: generacion_Inr)
qed

text \<open>
  Claim C9. The reproduction loop appends two children per round until the new population
  is at least as large as the old one, of size \<open>M\<close>. So a generation that completes leaves
  a new population of size \<open>M\<close> when \<open>M\<close> is even and \<open>M + 1\<close> when \<open>M\<close> is odd, never more
  than one larger than the old one, and a fitness vector of size \<open>M\<close>. A generation does
  complete when the population holds at least three permutations of \<open>0, ..., n - 1\<close> with
  \<open>n \<ge> 2\<close>, the sizes cover the stations, the preference matrix is \<open>n \<times> n\<close> and the draws
  are as the library promises.
\<close>

theorem generacion_tamano:
  "(generacion preferencias tamanos sorteos h poblacion = Inr (nueva, fitness, h') \<longrightarrow>
      length nueva = (if even (length poblacion) then length poblacion
                      else length poblacion + 1)
      \<and> length nueva \<le> length poblacion + 1
      \<and> length fitness = length poblacion)
   \<and> (candidatos_validos n h poblacion \<and> 3 \<le> length poblacion
        \<and> 2 \<le> n \<and> n \<le> length tamanos
        \<and> length preferencias = n \<and> (\<forall>fila \<in> set preferencias. length fila = n)
        \<and> (\<forall>i. sorteo_valido (length poblacion) n (sorteos i)) \<longrightarrow>
      (\<exists>nueva fitness h'.
         generacion preferencias tamanos sorteos h poblacion = Inr (nueva, fitness, h')))"
proof (intro conjI impI)
  assume "generacion preferencias tamanos sorteos h poblacion = Inr (nueva, fitness, h')"
  then have c: "comprension (\<lambda>individuo. evaluar_solucion (h ! individuo) preferencias tamanos)
                  poblacion = Inr fitness"
    and b: "bucle_reproduccion poblacion fitness sorteos h [] = Inr (nueva, h')"
    by (simp_all add: generacion_Inr)
  from b have l: "length nueva = length poblacion + length poblacion mod 2"
    by (rule bucle_reproduccion_length) simp_all
  then show "length nueva = (if even (length poblacion) then length poblacion
                      else length poblacion + 1)"
    by (auto simp: odd_iff_mod_2_eq_one)
  from l show "length nueva \<le> length poblacion + 1"
    by (auto simp: odd_iff_mod_2_eq_one)
  from c show "length fitness = length poblacion"
    by (rule comprension_length)
next
  assume "candidatos_validos n h poblacion \<and> 3 \<le> length poblacion
        \<and> 2 \<le> n \<and> n \<le> length tamanos
        \<and> length preferencias = n \<and> (\<forall>fila \<in> set preferencias. length fila = n)
        \<and> (\<forall>i. sorteo_valido (length poblacion) n (sorteos i))"
  then show "\<exists>nueva fitness h'.
         generacion preferencias tamanos sorteos h poblacion = Inr (nueva, fitness, h')"
    by (intro generacion_ok [of n]) simp_all
qed

theorem generacion_tamano_witness:
  "\<exists>nueva fitness h'.
     generacion preferencias_caso tamanos_caso (\<lambda>i. sorteo_activo)
       [identidad_caso, identidad_caso, identidad_caso] [0, 1, 2] = Inr (nueva, fitness, h')
     \<and> length nueva = 4 \<and> length fitness = 3"
proof -
  let ?h = "[identidad_caso, identidad_caso, identidad_caso]"
  note t = generacion_tamano [where h = ?h and poblacion = "[0, 1, 2]"
        and preferencias = preferencias_caso and tamanos = tamanos_caso
        and sorteos = "\<lambda>i. sorteo_activo"]
  have "candidatos_validos 6 ?h [0, 1, 2]"
    and "3 \<le> length [0, 1, 2 :: nat]" and "(2::nat) \<le> 6" and "6 \<le> length tamanos_caso"
    and "length preferencias_caso = 6" and "\<forall>fila \<in> set preferencias_caso. length fila = 6"
    and "sorteo_valido (length [0, 1, 2 :: nat]) 6 sorteo_activo"
    by code_simp+
  then have "candidatos_validos 6 ?h [0, 1, 2] \<and> 3 \<le> length [0, 1, 2 :: nat]
        \<and> (2::nat) \<le> 6 \<and> 6 \<le> length tamanos_caso
        \<and> length preferencias_caso = 6 \<and> (\<forall>fila \<in> set preferencias_caso. length fila = 6)
        \<and> (\<forall>i::nat. sorteo_valido (length [0, 1, 2 :: nat]) 6 sorteo_activo)"
    by blast
  with t [where n = 6, THEN conjunct2] obtain nueva fitness h' where
    g: "generacion preferencias_caso tamanos_caso (\<lambda>i. sorteo_activo) ?h [0, 1, 2]
          = Inr (nueva, fitness, h')"
    by blast
  with t [where nueva = nueva and fitness = fitness and h' = h', THEN conjunct1]
  have "length nueva = 4" "length fitness = 3"
    by simp_all
  with g show ?thesis by blast
qed

text \<open>
  Claim C5. When the positions drawn for each mutation are as \<open>random.sample\<close> promises,
  every candidate of a population is a permutation of \<open>0, ..., N - 1\<close>: those the
  initializer creates; those of the new population of a generation that starts from such
  a population, whether they come from crossover, from copying a parent or from mutation,
  while the objects that existed before the generation keep their contents; and so those
  of the population after any number of generations of the run.
\<close>

theorem poblacion_permutaciones:
  assumes "\<forall>g i. mutaciones_validas (nat num_puestos) (sorteos g i)"
  shows "candidatos_validos (nat num_puestos)
           (snd (inicializar_poblacion [] num_puestos))
           (fst (inicializar_poblacion [] num_puestos))
     \<and> (\<forall>g h poblacion nueva fitness h'.
           candidatos_validos (nat num_puestos) h poblacion
           \<and> generacion preferencias tamanos (sorteos g) h poblacion = Inr (nueva, fitness, h')
           \<longrightarrow> candidatos_validos (nat num_puestos) h' nueva
               \<and> (\<forall>r < length h. h' ! r = h ! r))
     \<and> (\<forall>g poblacion fitness h.
           evolucionar g preferencias tamanos sorteos
             (fst (inicializar_poblacion [] num_puestos), None,
              snd (inicializar_poblacion [] num_puestos)) = Inr (poblacion, fitness, h)
           \<longrightarrow> candidatos_validos (nat num_puestos) h poblacion)"
proof (intro conjI allI impI)
  show ini: "candidatos_validos (nat num_puestos)
           (snd (inicializar_poblacion [] num_puestos))
           (fst (inicializar_poblacion [] num_puestos))"
    by (rule inicializar_poblacion_perm)
  fix g h poblacion nueva fitness h'
  {
    assume a: "candidatos_validos (nat num_puestos) h poblacion
           \<and> generacion preferencias tamanos (sorteos g) h poblacion = Inr (nueva, fitness, h')"
    from assms have "\<forall>i. mutaciones_validas (nat num_puestos) (sorteos g i)"
      by simp
    with a generacion_perm [of preferencias tamanos "sorteos g" h poblacion nueva fitness h'
        "nat num_puestos"]
    have r: "candidatos_validos (nat num_puestos) h' nueva" "\<exists>ext. h' = h @ ext"
      by simp_all
    from r(1) show "candidatos_validos (nat num_puestos) h' nueva" .
    fix r assume "r < length h"
    with \<open>\<exists>ext. h' = h @ ext\<close> show "h' ! r = h ! r"
      by (auto simp: nth_append)
  }
  assume "evolucionar g preferencias tamanos sorteos
             (fst (inicializar_poblacion [] num_puestos), None,
              snd (inicializar_poblacion [] num_puestos)) = Inr (poblacion, fitness, h)"
  from evolucionar_perm [OF this ini assms]
  show "candidatos_validos (nat num_puestos) h poblacion" .
qed

theorem poblacion_permutaciones_witness:
  "\<exists>poblacion fitness h.
     evolucionar 2 preferencias_caso tamanos_caso (\<lambda>g i. sorteo_activo)
       (fst (inicializar_poblacion [] 6), None, snd (inicializar_poblacion [] 6))
       = Inr (poblacion, fitness, h)
     \<and> map ((!) h) poblacion
         = [[2, 4, 0, 3, 1, 5], [0, 1, 2, 3, 4, 5], [2, 4, 0, 3, 1, 5], [0, 1, 2, 3, 4, 5]]
     \<and> candidatos_validos 6 h poblacion"
proof -
  let ?run = "evolucionar 2 preferencias_caso tamanos_caso (\<lambda>g i. sorteo_activo)
       (fst (inicializar_poblacion [] 6), None, snd (inicializar_poblacion [] 6))"
  have "mutaciones_validas 6 sorteo_activo"
    by code_simp
  then have v: "\<forall>g i. mutaciones_validas (nat 6) ((\<lambda>g i. sorteo_activo) g i)"
    by simp
  have "(case ?run of Inl e \<Rightarrow> [] | Inr (poblacion, fitness, h) \<Rightarrow> map ((!) h) poblacion)
         = [[2, 4, 0, 3, 1, 5], [0, 1, 2, 3, 4, 5], [2, 4, 0, 3, 1, 5], [0, 1, 2, 3, 4, 5]]"
    by code_simp
  then obtain poblacion fitness h where
    run: "?run = Inr (poblacion, fitness, h)"
    and c: "map ((!) h) poblacion
         = [[2, 4, 0, 3, 1, 5], [0, 1, 2, 3, 4, 5], [2, 4, 0, 3, 1, 5], [0, 1, 2, 3, 4, 5]]"
    by (cases ?run) (auto split: prod.splits)
  from poblacion_permutaciones [OF v, of preferencias_caso tamanos_caso] run
  have "candidatos_validos 6 h poblacion"
    by simp
  with run c have "?run = Inr (poblacion, fitness, h)
     \<and> map ((!) h) poblacion
         = [[2, 4, 0, 3, 1, 5], [0, 1, 2, 3, 4, 5], [2, 4, 0, 3, 1, 5], [0, 1, 2, 3, 4, 5]]
     \<and> candidatos_validos 6 h poblacion"
    by (intro conjI)
  then show ?thesis
    by (intro exI)
qed

subsection \<open>The run of six stations\<close>

lemma comprension_const:
  "\<forall>x \<in> set xs. f x = Inr c \<Longrightarrow> comprension f xs = Inr (replicate (length xs) c)"
  by (induction xs) simp_all

lemma evaluar_identidad_caso:
  "evaluar_solucion identidad_caso preferencias_caso tamanos_caso = Inr 2"
  by code_simp

lemma evaluar_mutado_caso:
  "evaluar_solucion mutado_caso preferencias_caso tamanos_caso = Inr 1"
  by code_simp

lemma intercambio_caso:
  "identidad_caso[0 := identidad_caso ! 2, 2 := identidad_caso ! 0] = mutado_caso"
  by (simp add: identidad_caso_def mutado_caso_def)

lemma length_identidad_caso: "length identidad_caso = 6"
  by (simp add: identidad_caso_def)

lemma sorteo_quieto_campos:
  "torneo1 sorteo_quieto = [0, 1, 2]" "torneo2 sorteo_quieto = [0, 1, 2]"
  "cruza sorteo_quieto = False" "muta1 sorteo_quieto = False" "muta2 sorteo_quieto = False"
  unfolding sorteo_quieto_def by simp_all

lemma sorteo_mutante_campos:
  "torneo1 sorteo_mutante = [0, 1, 2]" "torneo2 sorteo_mutante = [0, 1, 2]"
  "cruza sorteo_mutante = False" "muta1 sorteo_mutante = False" "muta2 sorteo_mutante = True"
  "indices2 sorteo_mutante = (0, 2)"
  unfolding sorteo_mutante_def sorteo_quieto_def by simp_all

lemma poblacion_quieta_append:
  "poblacion_quieta h poblacion \<Longrightarrow> poblacion_quieta (h @ ext) poblacion"
  by (auto simp: poblacion_quieta_def nth_append)

lemma poblacion_quieta_0:
  "poblacion_quieta h poblacion \<Longrightarrow>
     0 < length poblacion \<and> poblacion ! 0 < length h \<and> h ! (poblacion ! 0) = identidad_caso"
  by (auto simp: poblacion_quieta_def)

lemma min_key_empate:
  "n = 3 \<or> n = 4 \<Longrightarrow> min_key (indice (replicate n (2::rat))) [0, 1, 2] = Inr 0"
  by (auto simp: min_key_def indice_def)

lemma seleccion_quieta:
  assumes "poblacion_quieta h0 poblacion" and "poblacion ! 0 < length h"
  shows "seleccion_torneo h poblacion (replicate (length poblacion) 2) 3 [0, 1, 2]
           = Inr (length h, h @ [h ! (poblacion ! 0)])"
proof -
  have n: "length poblacion = 3 \<or> length poblacion = 4"
    using assms(1) by (simp add: poblacion_quieta_def)
  then have rs: "random_sample (length poblacion) 3 [0, 1, 2] = Inr [0, 1, 2]"
    by (auto simp: random_sample_def)
  have ix: "indice poblacion 0 = Inr (poblacion ! 0)"
    using n by (auto simp: indice_def)
  show ?thesis
    unfolding seleccion_torneo_def rs bind_e_Inr min_key_empate [OF n] ix nuevo_def ..
qed

text \<open>The two parents of a round, then the two copies made when there is no crossover.\<close>

lemma padres_quietos:
  assumes "poblacion_quieta h poblacion"
  shows "bind_e (seleccion_torneo h poblacion (replicate (length poblacion) 2) 3 [0, 1, 2])
           (\<lambda>(padre1, h1).
         bind_e (seleccion_torneo h1 poblacion (replicate (length poblacion) 2) 3 [0, 1, 2])
           (\<lambda>(padre2, h2). k padre1 padre2 h2))
         = k (length h) (length h + 1) (h @ [identidad_caso, identidad_caso])"
proof -
  from poblacion_quieta_0 [OF assms]
  have p: "poblacion ! 0 < length h" "h ! (poblacion ! 0) = identidad_caso"
    by simp_all
  have s1: "seleccion_torneo h poblacion (replicate (length poblacion) 2) 3 [0, 1, 2]
           = Inr (length h, h @ [identidad_caso])"
    using seleccion_quieta [OF assms p(1)] p(2) by simp
  have "poblacion ! 0 < length (h @ [identidad_caso])"
    using p(1) by simp
  from seleccion_quieta [OF assms this] p
  have s2: "seleccion_torneo (h @ [identidad_caso]) poblacion
             (replicate (length poblacion) 2) 3 [0, 1, 2]
           = Inr (length h + 1, h @ [identidad_caso, identidad_caso])"
    by (simp add: nth_append)
  show ?thesis
    unfolding s1 bind_e_Inr prod.case s2 ..
qed

lemma copias_quietas:
  "(let (hijo1, h1) = nuevo (h @ [identidad_caso, identidad_caso])
                        ((h @ [identidad_caso, identidad_caso]) ! length h);
        (hijo2, h2) = nuevo h1 (h1 ! (length h + 1))
    in k hijo1 hijo2 h2)
   = k (length h + 2) (length h + 3)
       (h @ [identidad_caso, identidad_caso, identidad_caso, identidad_caso])"
  by (simp add: nuevo_def nth_append numeral_3_eq_3)

lemma mutacion_caso:
  "mutacion (h @ [identidad_caso, identidad_caso, identidad_caso, identidad_caso])
     (length h + 3) (0, 2)
   = Inr (length h + 3, h @ [identidad_caso, identidad_caso, identidad_caso, mutado_caso])"
proof -
  let ?h = "h @ [identidad_caso, identidad_caso, identidad_caso, identidad_caso]"
  have n: "?h ! (length h + 3) = identidad_caso"
    by (simp add: nth_append)
  then have "2 \<le> length (?h ! (length h + 3))"
    by (simp add: length_identidad_caso)
  from mutacion_eq [OF this, of 0 2] show ?thesis
    unfolding n intercambio_caso by (simp add: list_update_append)
qed

lemma reproducir_quieto:
  assumes "poblacion_quieta h poblacion"
  shows "reproducir h poblacion (replicate (length poblacion) 2) sorteo_quieto
           = Inr (length h + 2, length h + 3,
                  h @ [identidad_caso, identidad_caso, identidad_caso, identidad_caso])"
  unfolding reproducir_def sorteo_quieto_campos padres_quietos [OF assms] if_False
    copias_quietas bind_e_Inr prod.case ..

lemma reproducir_mutante:
  assumes "poblacion_quieta h poblacion"
  shows "reproducir h poblacion (replicate (length poblacion) 2) sorteo_mutante
           = Inr (length h + 2, length h + 3,
                  h @ [identidad_caso, identidad_caso, identidad_caso, mutado_caso])"
  unfolding reproducir_def sorteo_mutante_campos padres_quietos [OF assms] if_False if_True
    copias_quietas bind_e_Inr prod.case mutacion_caso ..

lemma bucle_dos_rondas:
  assumes "length poblacion = 3 \<or> length poblacion = 4"
    and "reproducir h poblacion fitness (sorteos 0) = Inr (a, b, h1)"
    and "reproducir h1 poblacion fitness (sorteos (Suc 0)) = Inr (c, d, h2)"
  shows "bucle_reproduccion poblacion fitness sorteos h [] = Inr ([a, b, c, d], h2)"
  using assms
  by (subst bucle_reproduccion.simps, subst bucle_reproduccion.simps,
      subst bucle_reproduccion.simps) auto

lemma fitness_quieto:
  assumes "poblacion_quieta h poblacion"
  shows "comprension (\<lambda>individuo. evaluar_solucion (h ! individuo) preferencias_caso tamanos_caso)
           poblacion = Inr (replicate (length poblacion) 2)"
  using assms
  by (intro comprension_const) (simp add: poblacion_quieta_def evaluar_identidad_caso)

lemma generacion_dos_rondas:
  assumes q: "poblacion_quieta h poblacion"
    and r1: "reproducir h poblacion (replicate (length poblacion) 2) (sorteos 0)
               = Inr (a, b, h @ [identidad_caso, identidad_caso, identidad_caso, x])"
    and s1: "sorteos (Suc 0) = sorteo_quieto"
  shows "generacion preferencias_caso tamanos_caso sorteos h poblacion
           = Inr ([a, b, length h + 6, length h + 7],
                  replicate (length poblacion) 2,
                  h @ [identidad_caso, identidad_caso, identidad_caso, x,
                       identidad_caso, identidad_caso, identidad_caso, identidad_caso])"
proof -
  let ?h1 = "h @ [identidad_caso, identidad_caso, identidad_caso, x]"
  have n: "length poblacion = 3 \<or> length poblacion = 4"
    using q by (simp add: poblacion_quieta_def)
  have "poblacion_quieta ?h1 poblacion"
    using q by (rule poblacion_quieta_append)
  from reproducir_quieto [OF this]
  have r2: "reproducir ?h1 poblacion (replicate (length poblacion) 2) (sorteos (Suc 0))
           = Inr (length h + 6, length h + 7,
                  h @ [identidad_caso, identidad_caso, identidad_caso, x,
                       identidad_caso, identidad_caso, identidad_caso, identidad_caso])"
    by (simp add: s1)
  have "bucle_reproduccion poblacion (replicate (length poblacion) 2) sorteos h []
          = Inr ([a, b, length h + 6, length h + 7],
                  h @ [identidad_caso, identidad_caso, identidad_caso, x,
                       identidad_caso, identidad_caso, identidad_caso, identidad_caso])"
    using n r1 r2 by (rule bucle_dos_rondas)
  then show ?thesis
    unfolding generacion_def fitness_quieto [OF q] by simp
qed

lemma sorteos_caso_quieto:
  "g < 99 \<Longrightarrow> sorteos_caso g i = sorteo_quieto"
  "sorteos_caso g (Suc i) = sorteo_quieto"
  "sorteos_caso 99 0 = sorteo_mutante"
  by (simp_all add: sorteos_caso_def)

lemma poblacion_quieta_nueva:
  "poblacion_quieta
     (h @ [identidad_caso, identidad_caso, identidad_caso, x,
           identidad_caso, identidad_caso, identidad_caso, identidad_caso])
     [length h + 2, length h + 3, length h + 6, length h + 7]
   \<longleftrightarrow> x = identidad_caso"
  by (auto simp: poblacion_quieta_def nth_append)

lemma evolucionar_quieto:
  "g \<le> 99 \<Longrightarrow>
   \<exists>poblacion f h.
     evolucionar g preferencias_caso tamanos_caso sorteos_caso estado_inicial_caso
       = Inr (poblacion, f, h)
     \<and> poblacion_quieta h poblacion"
proof (induction g)
  case 0
  have "poblacion_quieta [identidad_caso, identidad_caso, identidad_caso] [0, 1, 2]"
    by (simp add: poblacion_quieta_def)
  then show ?case
    by (simp add: estado_inicial_caso_def)
next
  case (Suc g)
  then obtain poblacion f h where
    e: "evolucionar g preferencias_caso tamanos_caso sorteos_caso estado_inicial_caso
          = Inr (poblacion, f, h)"
    and q: "poblacion_quieta h poblacion"
    by auto
  let ?nueva = "[length h + 2, length h + 3, length h + 6, length h + 7]"
  let ?h' = "h @ [identidad_caso, identidad_caso, identidad_caso, identidad_caso,
                  identidad_caso, identidad_caso, identidad_caso, identidad_caso]"
  from Suc.prems have g: "sorteos_caso g 0 = sorteo_quieto"
    by (simp add: sorteos_caso_quieto)
  have "generacion preferencias_caso tamanos_caso (sorteos_caso g) h poblacion
          = Inr (?nueva, replicate (length poblacion) 2, ?h')"
    by (rule generacion_dos_rondas [OF q])
       (simp_all only: g reproducir_quieto [OF q] sorteos_caso_quieto)
  then have "evolucionar (Suc g) preferencias_caso tamanos_caso sorteos_caso estado_inicial_caso
        = Inr (?nueva, Some (replicate (length poblacion) 2), ?h')"
    by (simp add: e)
  moreover have "poblacion_quieta ?h' ?nueva"
    by (simp only: poblacion_quieta_nueva)
  ultimately show ?case by blast
qed

lemma inicializar_poblacion_caso:
  "inicializar_poblacion [] 6 = ([0, 1, 2], [identidad_caso, identidad_caso, identidad_caso])"
  by code_simp

lemma argmin_empate: "n = 3 \<or> n = 4 \<Longrightarrow> argmin (replicate n 2) = Inr 0"
proof -
  have "argmin (replicate 3 2) = Inr 0" and "argmin (replicate 4 2) = Inr 0"
    by code_simp+
  then show "n = 3 \<or> n = 4 \<Longrightarrow> argmin (replicate n 2) = Inr 0"
    by auto
qed

lemma ejecutar_eq:
  assumes "inicializar_poblacion [] n = (p0, h0)"
    and "evolucionar g preferencias tamanos sorteos (p0, None, h0) = Inr (poblacion, Some fitness, h)"
    and "argmin fitness = Inr i" and "i < length poblacion"
    and "evaluar_solucion (h ! (poblacion ! i)) preferencias tamanos = Inr c"
  shows "ejecutar g n tamanos preferencias sorteos = Inr (h ! (poblacion ! i), c)"
  by (simp add: ejecutar_def assms indice_def)

lemma poblacion_final_eq:
  assumes "inicializar_poblacion [] n = (p0, h0)"
    and "evolucionar NUM_GENERACIONES preferencias tamanos sorteos (p0, None, h0)
           = Inr (poblacion, f, h)"
  shows "poblacion_final n tamanos preferencias sorteos = Inr (map ((!) h) poblacion)"
  by (simp add: poblacion_final_def assms)

lemma evolucionar_caso:
  "\<exists>h n. (n = 3 \<or> n = 4)
     \<and> evolucionar NUM_GENERACIONES preferencias_caso tamanos_caso sorteos_caso
         ([0, 1, 2], None, [identidad_caso, identidad_caso, identidad_caso])
       = Inr ([length h + 2, length h + 3, length h + 6, length h + 7],
              Some (replicate n 2),
              h @ [identidad_caso, identidad_caso, identidad_caso, mutado_caso,
                   identidad_caso, identidad_caso, identidad_caso, identidad_caso])"
proof -
  from evolucionar_quieto [of 99] obtain poblacion f h where
    e: "evolucionar 99 preferencias_caso tamanos_caso sorteos_caso estado_inicial_caso
          = Inr (poblacion, f, h)"
    and q: "poblacion_quieta h poblacion"
    by auto
  let ?nueva = "[length h + 2, length h + 3, length h + 6, length h + 7]"
  let ?h' = "h @ [identidad_caso, identidad_caso, identidad_caso, mutado_caso,
                  identidad_caso, identidad_caso, identidad_caso, identidad_caso]"
  have n: "length poblacion = 3 \<or> length poblacion = 4"
    using q by (simp add: poblacion_quieta_def)
  have gen: "generacion preferencias_caso tamanos_caso (sorteos_caso 99) h poblacion
          = Inr (?nueva, replicate (length poblacion) 2, ?h')"
    by (rule generacion_dos_rondas [OF q])
       (simp_all only: reproducir_mutante [OF q] sorteos_caso_quieto)
  have "evolucionar (Suc 99) preferencias_caso tamanos_caso sorteos_caso estado_inicial_caso
        = Inr (?nueva, Some (replicate (length poblacion) 2), ?h')"
    unfolding evolucionar.simps e bind_e_Inr prod.case gen ..
  moreover have "NUM_GENERACIONES = Suc 99"
    by (simp add: NUM_GENERACIONES_def)
  ultimately have "evolucionar NUM_GENERACIONES preferencias_caso tamanos_caso sorteos_caso
          ([0, 1, 2], None, [identidad_caso, identidad_caso, identidad_caso])
        = Inr (?nueva, Some (replicate (length poblacion) 2), ?h')"
    by (simp only: estado_inicial_caso_def)
  with n show ?thesis by blast
qed

text \<open>
  Claim C1 says the ordering returned is a candidate of least fitness in the final
  population, the fitness being computed from that population. On the run of six stations
  \<open>main\<close> returns the identity ordering, of cost 2, although the final population holds at
  index 1 a candidate of cost 1: the index comes from the fitness vector of the population
  before the last generation.
\<close>

theorem main_fitness_anterior:
  "main 6 tamanos_caso preferencias_caso sorteos_caso = Inr ([0, 1, 2, 3, 4, 5], 2)
   \<and> poblacion_final 6 tamanos_caso preferencias_caso sorteos_caso
       = Inr [[0, 1, 2, 3, 4, 5], [2, 1, 0, 3, 4, 5], [0, 1, 2, 3, 4, 5], [0, 1, 2, 3, 4, 5]]
   \<and> evaluar_solucion [2, 1, 0, 3, 4, 5] preferencias_caso tamanos_caso = Inr 1"
proof -
  from evolucionar_caso obtain h n where n: "n = 3 \<or> n = 4"
    and e: "evolucionar NUM_GENERACIONES preferencias_caso tamanos_caso sorteos_caso
         ([0, 1, 2], None, [identidad_caso, identidad_caso, identidad_caso])
       = Inr ([length h + 2, length h + 3, length h + 6, length h + 7],
              Some (replicate n 2),
              h @ [identidad_caso, identidad_caso, identidad_caso, mutado_caso,
                   identidad_caso, identidad_caso, identidad_caso, identidad_caso])"
    by blast
  let ?nueva = "[length h + 2, length h + 3, length h + 6, length h + 7]"
  let ?h' = "h @ [identidad_caso, identidad_caso, identidad_caso, mutado_caso,
                  identidad_caso, identidad_caso, identidad_caso, identidad_caso]"
  have mejor: "?h' ! (?nueva ! 0) = identidad_caso"
    by (simp add: nth_append)
  have l: "0 < length ?nueva"
    by simp
  have ev: "evaluar_solucion (?h' ! (?nueva ! 0)) preferencias_caso tamanos_caso = Inr 2"
    unfolding mejor by (rule evaluar_identidad_caso)
  have a: "main 6 tamanos_caso preferencias_caso sorteos_caso = Inr (identidad_caso, 2)"
    using ejecutar_eq [OF inicializar_poblacion_caso e argmin_empate [OF n] l ev]
    unfolding main_def mejor .
  have "map ((!) ?h') ?nueva = [identidad_caso, mutado_caso, identidad_caso, identidad_caso]"
    by (simp add: nth_append)
  with poblacion_final_eq [OF inicializar_poblacion_caso e]
  have b: "poblacion_final 6 tamanos_caso preferencias_caso sorteos_caso
       = Inr [identidad_caso, mutado_caso, identidad_caso, identidad_caso]"
    by (simp only:)
  from a b evaluar_mutado_caso show ?thesis
    unfolding identidad_caso_def mutado_caso_def by blast
qed

end
